theory Spec2Isabelle
  imports Complex_Main "HOL-Library.Sublist"
begin

section \<open>Characters and strings of the Python source\<close>

text \<open>
  Python strings are modelled as \<^typ>\<open>string\<close>. The model is exact for ASCII text; a
  character outside ASCII is a sequence of bytes that is neither a digit nor white space
  nor a letter with a lower-case form (Unicode digits and spaces are outside the model).
\<close>

abbreviation LF :: char where "LF \<equiv> CHR 0x0A"
abbreviation CR :: char where "CR \<equiv> CHR 0x0D"

definition isspace :: "char \<Rightarrow> bool" where
  \<comment> \<open>\<open>str.isspace\<close> on ASCII: tab, LF, VT, FF, CR, the separators 0x1C..0x1F and space.\<close>
  "isspace c = (let n = (of_char c :: nat) in (9 \<le> n \<and> n \<le> 13) \<or> (28 \<le> n \<and> n \<le> 32))"

definition strip :: "string \<Rightarrow> string" where
  \<comment> \<open>\<open>str.strip()\<close>: white space removed at both ends.\<close>
  "strip s = rev (dropWhile isspace (rev (dropWhile isspace s)))"

definition isdigit :: "char \<Rightarrow> bool" where
  "isdigit c = (let n = (of_char c :: nat) in 48 \<le> n \<and> n \<le> 57)"

definition digit_val :: "char \<Rightarrow> nat" where
  "digit_val c = of_char c - 48"

text \<open>
  \<open>int(s)\<close> in base 10: after stripping, an optional sign, then decimal digits in which
  single underscores may separate two digits. Anything else raises \<open>ValueError\<close>, which
  is the value \<open>None\<close> here. (The interpreter's limit on the number of digits of one
  integer is outside the model.)
\<close>

fun int_digits :: "nat \<Rightarrow> string \<Rightarrow> nat option" where
  "int_digits acc [] = Some acc"
| "int_digits acc [c] = (if isdigit c then Some (10 * acc + digit_val c) else None)"
| "int_digits acc (c # d # ds) =
     (if isdigit c then int_digits (10 * acc + digit_val c) (d # ds)
      else if c = CHR ''_'' \<and> isdigit d then int_digits (10 * acc + digit_val d) ds
      else None)"

definition int_unsigned :: "string \<Rightarrow> nat option" where
  "int_unsigned s =
     (case s of [] \<Rightarrow> None
      | c # cs \<Rightarrow> if isdigit c then int_digits (digit_val c) cs else None)"

definition py_int :: "string \<Rightarrow> int option" where
  "py_int s0 =
     (let s = strip s0 in
      if s \<noteq> [] \<and> hd s = CHR ''+'' then map_option int (int_unsigned (tl s))
      else if s \<noteq> [] \<and> hd s = CHR ''-'' then map_option (\<lambda>n. - int n) (int_unsigned (tl s))
      else map_option int (int_unsigned s))"

text \<open>
  \<open>str.lower()\<close> and the substring test \<open>needle in haystack\<close>, as used on the error
  text of the backend.
\<close>

definition lower_char :: "char \<Rightarrow> char" where
  "lower_char c = (let n = (of_char c :: nat) in if 65 \<le> n \<and> n \<le> 90 then char_of (n + 32) else c)"

definition lower :: "string \<Rightarrow> string" where
  "lower s = map lower_char s"

fun str_contains :: "string \<Rightarrow> string \<Rightarrow> bool" where
  "str_contains needle [] = (needle = [])"
| "str_contains needle (c # cs) =
     (take (length needle) (c # cs) = needle \<or> str_contains needle cs)"

text \<open>The decimal text of an integer, as an f-string writes it.\<close>

definition digit_char :: "nat \<Rightarrow> char" where
  "digit_char n = char_of (48 + n)"

fun digits10 :: "nat \<Rightarrow> string" where
  "digits10 n = (if n < 10 then [digit_char n] else digits10 (n div 10) @ [digit_char (n mod 10)])"

declare digits10.simps [simp del]

definition str_int :: "int \<Rightarrow> string" where
  "str_int i = (if i < 0 then CHR ''-'' # digits10 (nat (- i)) else digits10 (nat i))"

section \<open>Deduplication store\<close>

text \<open>
  The durable log \<open>processed_ids.txt\<close> is a value of type \<^typ>\<open>string option\<close>: its
  content, or \<open>None\<close> when the file does not exist or cannot be read. The file system
  is taken as reliable: a file that exists can be read, and an append succeeds.

  Reading a text file line by line: universal newlines turn CR LF and a lone CR into LF,
  and every line keeps its terminating LF.
\<close>

fun universal_newlines :: "string \<Rightarrow> string" where
  "universal_newlines [] = []"
| "universal_newlines [c] = [if c = CR then LF else c]"
| "universal_newlines (c # d # ds) =
     (if c = CR \<and> d = LF then LF # universal_newlines ds
      else if c = CR then LF # universal_newlines (d # ds)
      else c # universal_newlines (d # ds))"

fun split_lines :: "string \<Rightarrow> string \<Rightarrow> string list" where
  "split_lines cur [] = (if cur = [] then [] else [cur])"
| "split_lines cur (c # cs) =
     (if c = LF then (cur @ [c]) # split_lines [] cs else split_lines (cur @ [c]) cs)"

definition file_lines :: "string \<Rightarrow> string list" where
  "file_lines content = split_lines [] (universal_newlines content)"

definition nonblank_lines :: "string \<Rightarrow> string list" where
  \<comment> \<open>\<open>line.strip() for line in f if line.strip()\<close>\<close>
  "nonblank_lines content = filter (\<lambda>l. l \<noteq> []) (map strip (file_lines content))"

text \<open>
  \<open>load_processed_ids\<close> (lines 16 to 26): the set is built from a generator inside one
  \<open>try\<close>, so the first \<open>ValueError\<close> of \<open>int\<close> leaves the \<open>try\<close>, the bare
  \<open>except\<close> passes, and the function returns \<open>set()\<close>.
\<close>

definition load_processed_ids :: "string option \<Rightarrow> int set" where
  "load_processed_ids file =
     (case file of
        None \<Rightarrow> {}
      | Some content \<Rightarrow>
          (case those (map py_int (nonblank_lines content)) of
             None \<Rightarrow> {}
           | Some ids \<Rightarrow> set ids))"

text \<open>\<open>save_processed_id\<close> (lines 28 to 36) appends one line to the log.\<close>

definition file_content :: "string option \<Rightarrow> string" where
  "file_content file = (case file of None \<Rightarrow> [] | Some content \<Rightarrow> content)"

definition save_processed_id :: "int \<Rightarrow> string option \<Rightarrow> string option" where
  \<comment> \<open>Opening for append creates a missing file; the line written is the id and LF.\<close>
  "save_processed_id msg_id file = Some (file_content file @ str_int msg_id @ [LF])"

section \<open>Conversation memory\<close>

text \<open>
  \<open>conversation_history\<close> is a \<open>defaultdict(list)\<close> that the program only ever
  indexes: a total function from user ids to lists of (role, message) pairs, empty by
  default. \<open>update_history\<close> is lines 62 to 68.
\<close>

type_synonym history_entry = "string \<times> string"

type_synonym history = "int \<Rightarrow> history_entry list"

definition MAX_HISTORY :: nat where
  "MAX_HISTORY = 10"

definition last_n :: "nat \<Rightarrow> 'a list \<Rightarrow> 'a list" where
  \<comment> \<open>the slice \<open>xs[-n:]\<close> for a positive \<open>n\<close>: the whole list when it is shorter\<close>
  "last_n n xs = drop (length xs - n) xs"

definition update_history :: "history \<Rightarrow> int \<Rightarrow> string \<Rightarrow> string \<Rightarrow> history" where
  "update_history h user_id role message =
     (let h1 = h(user_id := h user_id @ [(role, message)]) in
      if length (h1 user_id) > MAX_HISTORY * 2
      then h1(user_id := last_n (MAX_HISTORY * 2) (h1 user_id))
      else h1)"

text \<open>
  A sequence of appends, each for one user, and the entries it appends for a given user in
  the order of the calls.
\<close>

definition append_all :: "(int \<times> string \<times> string) list \<Rightarrow> history \<Rightarrow> history" where
  "append_all apps h = foldl (\<lambda>h (u, role, message). update_history h u role message) h apps"

definition entries_of :: "int \<Rightarrow> (int \<times> string \<times> string) list \<Rightarrow> history_entry list" where
  "entries_of u apps = map snd (filter (\<lambda>a. fst a = u) apps)"

section \<open>Prompt builder\<close>

text \<open>
  \<open>build_prompt_with_history\<close> (lines 38 to 60). The loop that fills \<open>history_text\<close>
  is a fold over the slice \<open>history[-MAX_HISTORY:]\<close>. The text \<open>RAG.KNOWLEDGE\<close> comes
  from a module that is not part of the sources and is a parameter.
\<close>

definition history_line :: "history_entry \<Rightarrow> string" where
  "history_line e = fst e @ '': '' @ snd e @ [LF]"

definition history_text :: "history_entry list \<Rightarrow> string" where
  "history_text history =
     (if history \<noteq> [] then
        foldl (\<lambda>txt e. txt @ history_line e) (''Previous conversation:'' @ [LF])
          (last_n MAX_HISTORY history) @ [LF]
      else [])"

definition build_prompt_with_history :: "string \<Rightarrow> history \<Rightarrow> int \<Rightarrow> string \<Rightarrow> string" where
  "build_prompt_with_history KNOWLEDGE h user_id current_message =
     KNOWLEDGE @ [LF, LF] @ ''    '' @ history_text (h user_id) @
     ''Current message: '' @ current_message @ [LF, LF] @
     ''    Please respond appropriately based on the context and previous conversation.''"

section \<open>Polling loop\<close>

text \<open>
  The loop of \<open>main\<close> (lines 133 to 211). A fetched message carries the fields the loop
  reads; its text may be absent. A value of the backend is a JSON-like Python value. What a
  call raises is either an instance of \<open>Exception\<close>, which \<open>except Exception\<close> catches,
  or of \<open>BaseException\<close> only (an interrupt, an exit), which it does not catch.
\<close>

record message =
  msg_id :: int
  sender_id :: int
  msg_text :: "string option"
  msg_out :: bool
  is_private :: bool

datatype pyval =
    PNone
  | PBool bool
  | PInt int
  | PStr string
  | PList "pyval list"
  | PDict "(string \<times> pyval) list"

datatype exn = is_Exception: Exception string | BaseException string

record rpc_request =
  jsonrpc :: string
  rpc_method :: string
  params_knowledge :: string
  params_prompt :: string
  rpc_id :: int

text \<open>
  The argument of \<open>msg.reply\<close>: the \<open>content\<close> field of the result, or \<open>str(result)\<close>,
  kept symbolic.
\<close>

datatype reply_text = Content pyval | Str_of pyval

text \<open>
  What the loop does to the outside is recorded as a trace of events: the calls to the
  collaborators, the lines printed to the console (one constructor for each \<open>print\<close> of
  the loop) and the sleeps, in seconds.
\<close>

datatype event =
    Call_get_messages nat
  | Print_Processing int string
  | Print_Sending
  | Call_generate rpc_request
  | Call_reply int reply_text
  | Print_Replied int
  | Print_Gemini_Error pyval
  | Print_Unexpected_Type pyval
  | Print_Gemini_Crash exn
  | Sleep nat
  | Print_Cleanup
  | Print_Loop_Error exn

text \<open>
  The collaborators are functions on a state \<open>'w\<close> of the outside world, which they may
  change: the chat source (\<open>get_messages\<close> with its limit, \<open>reply\<close>), the backend
  (\<open>generate_G2_flash\<close>), the clock (\<open>time.time()\<close>, read as a real number of seconds)
  and the order in which \<open>list(processed_ids)\<close> enumerates a set.
\<close>

record 'w env =
  KNOWLEDGE :: string
  get_messages :: "nat \<Rightarrow> 'w \<Rightarrow> (exn + message list) \<times> 'w"
  generate_G2_flash :: "rpc_request \<Rightarrow> 'w \<Rightarrow> (exn + pyval) \<times> 'w"
  reply :: "message \<Rightarrow> reply_text \<Rightarrow> 'w \<Rightarrow> exn option \<times> 'w"
  time_time :: "'w \<Rightarrow> real \<times> 'w"
  list_of_set :: "'w \<Rightarrow> int set \<Rightarrow> int list"

text \<open>The variables of the loop, the log file, the trace and the outside world.\<close>

record 'w bot =
  processed_ids :: "int set"
  processed_file :: "string option"
  conversation_history :: history
  last_check_time :: real
  events :: "event list"
  world :: 'w

definition emit :: "event \<Rightarrow> 'w bot \<Rightarrow> 'w bot" where
  "emit e st = st\<lparr>events := events st @ [e]\<rparr>"

definition add_and_save :: "int \<Rightarrow> 'w bot \<Rightarrow> 'w bot" where
  \<comment> \<open>\<open>processed_ids.add(msg.id); save_processed_id(msg.id)\<close>\<close>
  "add_and_save i st =
     st\<lparr>processed_ids := insert i (processed_ids st),
        processed_file := save_processed_id i (processed_file st)\<rparr>"

definition falsy :: "string option \<Rightarrow> bool" where
  \<comment> \<open>\<open>not msg.text\<close>: the text is absent or empty\<close>
  "falsy t = (case t of None \<Rightarrow> True | Some s \<Rightarrow> s = [])"

definition text_of :: "message \<Rightarrow> string" where
  "text_of msg = (case msg_text msg of None \<Rightarrow> [] | Some s \<Rightarrow> s)"

text \<open>
  The branch for a result (lines 170 to 182), the branch for an error (lines 184 to 190)
  and the dispatch on the response (lines 169 to 192). A step returns the exception that
  left it, if any, and the state reached. \<open>.get\<close> on an error that is not a mapping and
  \<open>.lower()\<close> on a message that is not a string raise \<open>AttributeError\<close>.
\<close>

definition reply_text_of :: "pyval \<Rightarrow> reply_text" where
  "reply_text_of result =
     (case result of
        PDict rd \<Rightarrow> (case map_of rd ''content'' of Some c \<Rightarrow> Content c | None \<Rightarrow> Str_of result)
      | _ \<Rightarrow> Str_of result)"

definition handle_result :: "'w env \<Rightarrow> message \<Rightarrow> pyval \<Rightarrow> 'w bot \<Rightarrow> exn option \<times> 'w bot" where
  "handle_result env msg result st =
     (let st1 = emit (Call_reply (msg_id msg) (reply_text_of result)) st;
          (r, w) = reply env msg (reply_text_of result) (world st1);
          st2 = st1\<lparr>world := w\<rparr>
      in case r of
           Some e \<Rightarrow> (Some e, st2)
         | None \<Rightarrow> (None, add_and_save (msg_id msg) (emit (Print_Replied (msg_id msg)) st2)))"

definition error_message :: "(string \<times> pyval) list \<Rightarrow> pyval" where
  \<comment> \<open>\<open>.get('message', 'Unknown error')\<close>\<close>
  "error_message ed = (case map_of ed ''message'' of Some m \<Rightarrow> m | None \<Rightarrow> PStr ''Unknown error'')"

definition handle_error :: "message \<Rightarrow> pyval \<Rightarrow> 'w bot \<Rightarrow> exn option \<times> 'w bot" where
  "handle_error msg err st =
     (case err of
        PDict ed \<Rightarrow>
          (let st1 = emit (Print_Gemini_Error (error_message ed)) st in
           case error_message ed of
             PStr s \<Rightarrow>
               if \<not> str_contains ''method'' (lower s)
               then (None, add_and_save (msg_id msg) st1)
               else (None, st1)
           | _ \<Rightarrow> (Some (Exception ''AttributeError''), st1))
      | _ \<Rightarrow> (Some (Exception ''AttributeError''), st))"

definition handle_response :: "'w env \<Rightarrow> message \<Rightarrow> pyval \<Rightarrow> 'w bot \<Rightarrow> exn option \<times> 'w bot" where
  "handle_response env msg response st =
     (case response of
        PDict d \<Rightarrow>
          (case map_of d ''result'' of
             Some result \<Rightarrow> handle_result env msg result st
           | None \<Rightarrow>
               (case map_of d ''error'' of
                  Some err \<Rightarrow> handle_error msg err st
                | None \<Rightarrow> (None, st)))
      | _ \<Rightarrow> (None, emit (Print_Unexpected_Type response) st))"

definition call_generate :: "'w env \<Rightarrow> message \<Rightarrow> rpc_request \<Rightarrow> 'w bot \<Rightarrow> exn option \<times> 'w bot" where
  "call_generate env msg rpc st =
     (let st1 = emit (Call_generate rpc) st;
          (r, w) = generate_G2_flash env rpc (world st1);
          st2 = st1\<lparr>world := w\<rparr>
      in case r of
           Inl e \<Rightarrow> (Some e, st2)
         | Inr response \<Rightarrow> handle_response env msg response st2)"

text \<open>
  The private branch (lines 148 to 195): the inner \<open>try\<close> with its
  \<open>except Exception\<close>, after the history update and the construction of the request.
\<close>

definition rpc_request_of :: "string \<Rightarrow> history \<Rightarrow> message \<Rightarrow> rpc_request" where
  "rpc_request_of knowledge h msg =
     \<lparr>jsonrpc = ''2.0'', rpc_method = ''generate_content'', params_knowledge = knowledge,
      params_prompt = build_prompt_with_history knowledge h (sender_id msg) (text_of msg),
      rpc_id = sender_id msg\<rparr>"

definition process_private :: "'w env \<Rightarrow> message \<Rightarrow> 'w bot \<Rightarrow> exn option \<times> 'w bot" where
  "process_private env msg st =
     (let st1 = emit (Print_Processing (msg_id msg) (take 50 (text_of msg))) st;
          st2 = st1\<lparr>conversation_history :=
                  update_history (conversation_history st1) (sender_id msg) ''User'' (text_of msg)\<rparr>;
          rpc = rpc_request_of (KNOWLEDGE env) (conversation_history st2) msg;
          st3 = emit Print_Sending st2
      in case call_generate env msg rpc st3 of
           (Some e, st4) \<Rightarrow>
             if is_Exception e then (None, emit (Print_Gemini_Crash e) st4) else (Some e, st4)
         | (None, st4) \<Rightarrow> (None, st4))"

text \<open>
  One iteration of the \<open>for\<close> loop (lines 142 to 198): the skip filter, the private
  branch, and the unconditional record that ends the iteration.
\<close>

definition process_message :: "'w env \<Rightarrow> message \<Rightarrow> 'w bot \<Rightarrow> exn option \<times> 'w bot" where
  "process_message env msg st =
     (if msg_out msg \<or> falsy (msg_text msg) \<or> msg_id msg \<in> processed_ids st then (None, st)
      else
        (case (if is_private msg then process_private env msg st else (None, st)) of
           (Some e, st1) \<Rightarrow> (Some e, st1)
         | (None, st1) \<Rightarrow> (None, add_and_save (msg_id msg) st1)))"

fun for_each_message :: "'w env \<Rightarrow> message list \<Rightarrow> 'w bot \<Rightarrow> exn option \<times> 'w bot" where
  "for_each_message env [] st = (None, st)"
| "for_each_message env (msg # msgs) st =
     (case process_message env msg st of
        (Some e, st1) \<Rightarrow> (Some e, st1)
      | (None, st1) \<Rightarrow> for_each_message env msgs st1)"

text \<open>
  The periodic cleanup (lines 203 to 207); \<open>xs\<close> is the list \<open>list(processed_ids)\<close>.
\<close>

definition compact :: "int list \<Rightarrow> int set \<Rightarrow> int set" where
  "compact xs ids = (if card ids > 1000 then set (last_n 1000 xs) else ids)"

definition periodic_cleanup :: "'w env \<Rightarrow> 'w bot \<Rightarrow> 'w bot" where
  "periodic_cleanup env st =
     (let (now, w1) = time_time env (world st);
          st1 = st\<lparr>world := w1\<rparr>
      in if now - last_check_time st1 > 600 then
           (let st2 = emit Print_Cleanup st1;
                st3 = st2\<lparr>processed_ids :=
                        compact (list_of_set env (world st2) (processed_ids st2)) (processed_ids st2)\<rparr>;
                (now2, w2) = time_time env (world st3)
            in st3\<lparr>last_check_time := now2, world := w2\<rparr>)
         else st1)"

text \<open>
  One cycle of \<open>while True\<close> with its \<open>except Exception\<close> (lines 136 to 211), and the
  loop itself for a given number of cycles: the result \<open>None\<close> means that the loop is
  still running after them, \<open>Some e\<close> that \<open>e\<close> has left the loop.
\<close>

definition loop_handler :: "exn \<Rightarrow> 'w bot \<Rightarrow> exn option \<times> 'w bot" where
  "loop_handler e st =
     (if is_Exception e then (None, emit (Sleep 5) (emit (Print_Loop_Error e) st))
      else (Some e, st))"

definition poll_cycle :: "'w env \<Rightarrow> 'w bot \<Rightarrow> exn option \<times> 'w bot" where
  "poll_cycle env st =
     (let st0 = emit (Call_get_messages 20) st;
          (r, w) = get_messages env 20 (world st0);
          st1 = st0\<lparr>world := w\<rparr>
      in case r of
           Inl e \<Rightarrow> loop_handler e st1
         | Inr messages \<Rightarrow>
             (case for_each_message env (rev messages) st1 of
                (Some e, st2) \<Rightarrow> loop_handler e st2
              | (None, st2) \<Rightarrow> (None, periodic_cleanup env (emit (Sleep 2) st2))))"

fun polling :: "nat \<Rightarrow> 'w env \<Rightarrow> 'w bot \<Rightarrow> exn option \<times> 'w bot" where
  "polling 0 env st = (None, st)"
| "polling (Suc n) env st =
     (case poll_cycle env st of
        (Some e, st1) \<Rightarrow> (Some e, st1)
      | (None, st1) \<Rightarrow> polling n env st1)"

section \<open>Observations on the event trace\<close>

definition reply_ids :: "event list \<Rightarrow> int list" where
  \<comment> \<open>the ids of the messages replied to, in the order of the replies\<close>
  "reply_ids evs = concat (map (\<lambda>e. case e of Call_reply i t \<Rightarrow> [i] | _ \<Rightarrow> []) evs)"

definition processing_ids :: "event list \<Rightarrow> int list" where
  \<comment> \<open>the ids of the messages whose private-chat processing started, in order\<close>
  "processing_ids evs = concat (map (\<lambda>e. case e of Print_Processing i t \<Rightarrow> [i] | _ \<Rightarrow> []) evs)"

definition backend_calls :: "event list \<Rightarrow> rpc_request list" where
  "backend_calls evs = concat (map (\<lambda>e. case e of Call_generate rq \<Rightarrow> [rq] | _ \<Rightarrow> []) evs)"

definition rpc_for :: "'w env \<Rightarrow> 'w bot \<Rightarrow> message \<Rightarrow> rpc_request" where
  \<comment> \<open>the request built for a message: its text is first appended to its sender's history\<close>
  "rpc_for env st msg =
     rpc_request_of (KNOWLEDGE env)
       (update_history (conversation_history st) (sender_id msg) ''User'' (text_of msg)) msg"

definition transient_only :: "'w env \<Rightarrow> bool" where
  \<comment> \<open>whatever the collaborators raise derives from \<open>Exception\<close> (no interrupt, no exit)\<close>
  "transient_only env \<longleftrightarrow>
     (\<forall>limit w e. fst (get_messages env limit w) = Inl e \<longrightarrow> is_Exception e) \<and>
     (\<forall>rq w e. fst (generate_G2_flash env rq w) = Inl e \<longrightarrow> is_Exception e) \<and>
     (\<forall>msg t w e. fst (reply env msg t w) = Some e \<longrightarrow> is_Exception e)"

section \<open>Example collaborators\<close>

text \<open>
  An environment that answers every fetch, every backend call and every reply the same
  way; its state is a clock that each reading advances by one second.
\<close>

definition example_env ::
  "(exn + message list) \<Rightarrow> (exn + pyval) \<Rightarrow> exn option \<Rightarrow> nat env" where
  "example_env fetched answer replied =
     \<lparr>KNOWLEDGE = ''FAQ'',
      get_messages = (\<lambda>limit w. (fetched, w)),
      generate_G2_flash = (\<lambda>rq w. (answer, w)),
      reply = (\<lambda>msg t w. (replied, w)),
      time_time = (\<lambda>w. (real w, Suc w)),
      list_of_set = (\<lambda>w. sorted_list_of_set)\<rparr>"

definition example_message :: "int \<Rightarrow> string \<Rightarrow> message" where
  \<comment> \<open>an inbound private text message from user 7\<close>
  "example_message i t =
     \<lparr>msg_id = i, sender_id = 7, msg_text = Some t, msg_out = False, is_private = True\<rparr>"

definition example_bot :: "int set \<Rightarrow> string option \<Rightarrow> nat bot" where
  "example_bot ids file =
     \<lparr>processed_ids = ids, processed_file = file, conversation_history = (\<lambda>_. []),
      last_check_time = 0, events = [], world = 0\<rparr>"

section \<open>Properties of the deduplication store\<close>

lemma those_None_iff: "those xs = None \<longleftrightarrow> None \<in> set xs"
  by (induction xs) (auto split: option.splits)

lemma those_Some_map_the: "those xs = Some ys \<Longrightarrow> ys = map the xs"
  by (induction xs arbitrary: ys) (auto split: option.splits)

text \<open>
  C2 (as amended). A malformed line is not skipped on its own: the first non-blank line
  that \<open>int\<close> rejects makes the whole load return the empty set. Only when every
  non-blank line is an integer does the load return the set of those integers.
\<close>

theorem load_processed_ids_all_or_nothing:
  "(list_ex (\<lambda>l. py_int l = None) (nonblank_lines content) \<longrightarrow>
      load_processed_ids (Some content) = {}) \<and>
   (list_all (\<lambda>l. py_int l \<noteq> None) (nonblank_lines content) \<longrightarrow>
      load_processed_ids (Some content) = (the \<circ> py_int) ` set (nonblank_lines content))"
proof (intro conjI impI)
  assume "list_ex (\<lambda>l. py_int l = None) (nonblank_lines content)"
  then have "None \<in> set (map py_int (nonblank_lines content))"
    by (auto simp: list_ex_iff intro: rev_image_eqI)
  then have "those (map py_int (nonblank_lines content)) = None"
    by (simp only: those_None_iff)
  then show "load_processed_ids (Some content) = {}"
    by (simp add: load_processed_ids_def)
next
  assume ok: "list_all (\<lambda>l. py_int l \<noteq> None) (nonblank_lines content)"
  then have "None \<notin> set (map py_int (nonblank_lines content))"
    by (auto simp: list_all_iff)
  then obtain ids where ids: "those (map py_int (nonblank_lines content)) = Some ids"
    using those_None_iff by fastforce
  then have "ids = map the (map py_int (nonblank_lines content))"
    by (rule those_Some_map_the)
  with ids show "load_processed_ids (Some content) =
      (the \<circ> py_int) ` set (nonblank_lines content)"
    by (simp add: load_processed_ids_def image_comp)
qed

theorem load_processed_ids_all_or_nothing_witness:
  "list_ex (\<lambda>l. py_int l = None) (nonblank_lines (''abc'' @ [LF] @ ''123'' @ [LF])) \<and>
   load_processed_ids (Some (''abc'' @ [LF] @ ''123'' @ [LF])) = {} \<and>
   list_all (\<lambda>l. py_int l \<noteq> None) (nonblank_lines (''7'' @ [LF, LF] @ ''123'' @ [LF])) \<and>
   load_processed_ids (Some (''7'' @ [LF, LF] @ ''123'' @ [LF])) = {7, 123}"
proof -
  have bad: "list_ex (\<lambda>l. py_int l = None) (nonblank_lines (''abc'' @ [LF] @ ''123'' @ [LF]))"
    by code_simp
  have good: "list_all (\<lambda>l. py_int l \<noteq> None)
      (nonblank_lines (''7'' @ [LF, LF] @ ''123'' @ [LF]))"
    by code_simp
  have img: "(the \<circ> py_int) ` set (nonblank_lines (''7'' @ [LF, LF] @ ''123'' @ [LF])) = {7, 123}"
    by code_simp
  from bad good img
    load_processed_ids_all_or_nothing [of "''abc'' @ [LF] @ ''123'' @ [LF]"]
    load_processed_ids_all_or_nothing [of "''7'' @ [LF, LF] @ ''123'' @ [LF]"]
  show ?thesis by (simp only: simp_thms)
qed

text \<open>
  C2 as stated fails: for the file holding \<open>abc\<close> and \<open>123\<close> on two lines the load
  does not return the set holding 123 (it returns the empty set).
\<close>

theorem load_skips_malformed_counterexample:
  "load_processed_ids (Some (''abc'' @ [LF] @ ''123'' @ [LF])) \<noteq> {123}"
  by code_simp

section \<open>Properties of the conversation memory\<close>

lemma last_n_length: "length (last_n n xs) \<le> n"
  by (simp add: last_n_def)

lemma last_n_short: "length xs \<le> n \<Longrightarrow> last_n n xs = xs"
  by (simp add: last_n_def)

lemma last_n_snoc: "0 < n \<Longrightarrow> last_n n (last_n n xs @ [x]) = last_n n (xs @ [x])"
  by (cases "length xs \<le> n") (auto simp: last_n_def Suc_diff_le)

lemma last_n_last_n:
  assumes "m \<le> n"
  shows "last_n m (last_n n xs) = last_n m xs"
proof -
  from assms have "length xs - (length xs - n) - m + (length xs - n) = length xs - m"
    by arith
  then show ?thesis
    by (simp add: last_n_def)
qed

lemma update_history_same:
  "update_history h u role message u = last_n (2 * MAX_HISTORY) (h u @ [(role, message)])"
  by (simp add: update_history_def Let_def last_n_def MAX_HISTORY_def)

lemma update_history_other: "v \<noteq> u \<Longrightarrow> update_history h u role message v = h v"
  by (simp add: update_history_def Let_def)

lemma append_all_snoc:
  "append_all (apps @ [(v, role, message)]) h = update_history (append_all apps h) v role message"
  by (simp add: append_all_def)

lemma append_all_stored:
  assumes "length (h0 u) \<le> 2 * MAX_HISTORY"
  shows "append_all apps h0 u = last_n (2 * MAX_HISTORY) (h0 u @ entries_of u apps)"
proof (induction apps rule: rev_induct)
  case Nil
  from assms show ?case
    by (simp add: append_all_def entries_of_def last_n_short)
next
  case (snoc a apps)
  obtain v role message where a: "a = (v, role, message)"
    by (cases a) auto
  show ?case
  proof (cases "v = u")
    case True
    have "0 < 2 * MAX_HISTORY" by (simp add: MAX_HISTORY_def)
    then show ?thesis
      using snoc.IH True a
      by (simp only: append_all_snoc update_history_same)
         (simp add: entries_of_def last_n_snoc del: append_assoc add: append_assoc [symmetric])
  next
    case False
    with snoc.IH a show ?thesis
      by (simp add: append_all_snoc update_history_other entries_of_def)
  qed
qed

lemma foldl_append_lines: "foldl (\<lambda>txt e. txt @ f e) a xs = a @ concat (map f xs)"
  by (induction xs arbitrary: a) simp_all

lemma history_text_eq:
  "history_text history =
     (if history = [] then []
      else ''Previous conversation:'' @ [LF] @
           concat (map history_line (last_n MAX_HISTORY history)) @ [LF])"
  by (simp add: history_text_def foldl_append_lines del: append.simps)

lemma last_n_Nil_iff: "0 < n \<Longrightarrow> last_n n xs = [] \<longleftrightarrow> xs = []"
  by (cases xs) (auto simp: last_n_def)

text \<open>
  C3. Whatever appends are made, a user's stored history is the last \<open>2 * MAX_HISTORY\<close>
  (20) of the entries appended for that user, so it holds at most 20 entries and loses the
  oldest first; the history block of the prompt lists the last \<open>MAX_HISTORY\<close> (10)
  of them, oldest first, and is empty when there is no entry.
\<close>

theorem history_bound:
  assumes "length (h0 u) \<le> 2 * MAX_HISTORY"
  shows "let stored = append_all apps h0 u; appended = h0 u @ entries_of u apps in
     length stored \<le> 2 * MAX_HISTORY \<and>
     stored = last_n (2 * MAX_HISTORY) appended \<and>
     history_text stored =
       (if appended = [] then []
        else ''Previous conversation:'' @ [LF] @
             concat (map history_line (last_n MAX_HISTORY appended)) @ [LF]) \<and>
     length (last_n MAX_HISTORY appended) \<le> MAX_HISTORY"
proof -
  let ?all = "h0 u @ entries_of u apps"
  have stored: "append_all apps h0 u = last_n (2 * MAX_HISTORY) ?all"
    using assms by (rule append_all_stored)
  have pos: "0 < 2 * MAX_HISTORY" by (simp add: MAX_HISTORY_def)
  have empty: "last_n (2 * MAX_HISTORY) ?all = [] \<longleftrightarrow> ?all = []"
    using pos by (rule last_n_Nil_iff)
  have shown: "last_n MAX_HISTORY (last_n (2 * MAX_HISTORY) ?all) = last_n MAX_HISTORY ?all"
    by (rule last_n_last_n) simp
  have rendered: "history_text (last_n (2 * MAX_HISTORY) ?all) =
       (if ?all = [] then []
        else ''Previous conversation:'' @ [LF] @
             concat (map history_line (last_n MAX_HISTORY ?all)) @ [LF])"
    by (simp only: history_text_eq empty shown)
  show ?thesis
    unfolding Let_def stored
    using rendered last_n_length [of "2 * MAX_HISTORY" ?all] last_n_length [of MAX_HISTORY ?all]
    by blast
qed

theorem history_bound_witness:
  "length ([] :: history_entry list) \<le> 2 * MAX_HISTORY \<and>
   append_all [(1, ''User'', ''a''), (2, ''User'', ''x''), (1, ''User'', ''b'')] (\<lambda>_. []) 1 =
     last_n (2 * MAX_HISTORY) [(''User'', ''a''), (''User'', ''b'')] \<and>
   history_text
       (append_all [(1, ''User'', ''a''), (2, ''User'', ''x''), (1, ''User'', ''b'')] (\<lambda>_. []) 1) =
     ''Previous conversation:'' @ [LF] @
     concat (map history_line (last_n MAX_HISTORY [(''User'', ''a''), (''User'', ''b'')])) @ [LF]"
proof -
  let ?apps = "[(1 :: int, ''User'', ''a''), (2, ''User'', ''x''), (1, ''User'', ''b'')]"
  have small: "length ([] :: history_entry list) \<le> 2 * MAX_HISTORY"
    by simp
  have entries: "[] @ entries_of 1 ?apps = [(''User'', ''a''), (''User'', ''b'')]"
    by (simp add: entries_of_def)
  have nonempty: "([(''User'', ''a''), (''User'', ''b'')] = ([] :: history_entry list)) = False"
    by simp
  from history_bound [of "\<lambda>_. []" 1 ?apps, OF small] small show ?thesis
    unfolding Let_def entries nonempty if_False by blast
qed

section \<open>Properties of the polling loop\<close>

lemma reply_ids_simps [simp]:
  "reply_ids [] = []"
  "reply_ids (xs @ ys) = reply_ids xs @ reply_ids ys"
  "reply_ids (Call_reply i t # xs) = i # reply_ids xs"
  "reply_ids (Call_get_messages n # xs) = reply_ids xs"
  "reply_ids (Print_Processing i s # xs) = reply_ids xs"
  "reply_ids (Print_Sending # xs) = reply_ids xs"
  "reply_ids (Call_generate rq # xs) = reply_ids xs"
  "reply_ids (Print_Replied i # xs) = reply_ids xs"
  "reply_ids (Print_Gemini_Error v # xs) = reply_ids xs"
  "reply_ids (Print_Unexpected_Type v # xs) = reply_ids xs"
  "reply_ids (Print_Gemini_Crash e # xs) = reply_ids xs"
  "reply_ids (Sleep n # xs) = reply_ids xs"
  "reply_ids (Print_Cleanup # xs) = reply_ids xs"
  "reply_ids (Print_Loop_Error e # xs) = reply_ids xs"
  by (simp_all add: reply_ids_def)

lemma processing_ids_simps [simp]:
  "processing_ids [] = []"
  "processing_ids (xs @ ys) = processing_ids xs @ processing_ids ys"
  "processing_ids (Print_Processing i s # xs) = i # processing_ids xs"
  "processing_ids (Call_get_messages n # xs) = processing_ids xs"
  "processing_ids (Call_reply i t # xs) = processing_ids xs"
  "processing_ids (Print_Sending # xs) = processing_ids xs"
  "processing_ids (Call_generate rq # xs) = processing_ids xs"
  "processing_ids (Print_Replied i # xs) = processing_ids xs"
  "processing_ids (Print_Gemini_Error v # xs) = processing_ids xs"
  "processing_ids (Print_Unexpected_Type v # xs) = processing_ids xs"
  "processing_ids (Print_Gemini_Crash e # xs) = processing_ids xs"
  "processing_ids (Sleep n # xs) = processing_ids xs"
  "processing_ids (Print_Cleanup # xs) = processing_ids xs"
  "processing_ids (Print_Loop_Error e # xs) = processing_ids xs"
  by (simp_all add: processing_ids_def)

lemma emit_simps [simp]:
  "events (emit e st) = events st @ [e]"
  "world (emit e st) = world st"
  "processed_ids (emit e st) = processed_ids st"
  "processed_file (emit e st) = processed_file st"
  "conversation_history (emit e st) = conversation_history st"
  "last_check_time (emit e st) = last_check_time st"
  by (simp_all add: emit_def)

lemma add_and_save_simps [simp]:
  "events (add_and_save i st) = events st"
  "world (add_and_save i st) = world st"
  "processed_ids (add_and_save i st) = insert i (processed_ids st)"
  "processed_file (add_and_save i st) = save_processed_id i (processed_file st)"
  "conversation_history (add_and_save i st) = conversation_history st"
  "last_check_time (add_and_save i st) = last_check_time st"
  by (simp_all add: add_and_save_def)

text \<open>What each step of the private branch adds to the trace.\<close>

lemma handle_result_events:
  "\<exists>new. events (snd (handle_result env msg result st)) = events st @ new \<and>
     reply_ids new = [msg_id msg] \<and> processing_ids new = []"
  by (simp add: handle_result_def Let_def split: prod.splits option.splits)

lemma handle_error_events:
  "\<exists>new. events (snd (handle_error msg err st)) = events st @ new \<and>
     reply_ids new = [] \<and> processing_ids new = []"
  by (cases err) (simp_all add: handle_error_def Let_def split: pyval.splits)

lemma handle_response_events:
  "\<exists>new. events (snd (handle_response env msg response st)) = events st @ new \<and>
     (reply_ids new = [] \<or> reply_ids new = [msg_id msg]) \<and> processing_ids new = []"
proof (cases response)
  case (PDict d)
  show ?thesis
  proof (cases "map_of d ''result''")
    case (Some result)
    with PDict handle_result_events [of env msg result st] show ?thesis
      by (auto simp: handle_response_def)
  next
    case None
    show ?thesis
    proof (cases "map_of d ''error''")
      case (Some err)
      with PDict None handle_error_events [of msg err st] show ?thesis
        by (auto simp: handle_response_def)
    next
      case no_error: None
      with PDict None show ?thesis
        by (simp add: handle_response_def)
    qed
  qed
qed (simp_all add: handle_response_def)

lemma call_generate_events:
  "\<exists>new. events (snd (call_generate env msg rpc st)) = events st @ Call_generate rpc # new \<and>
     (reply_ids new = [] \<or> reply_ids new = [msg_id msg]) \<and> processing_ids new = []"
proof (cases "generate_G2_flash env rpc (world st)")
  case (Pair r w)
  show ?thesis
  proof (cases r)
    case (Inl e)
    with Pair show ?thesis
      by (simp add: call_generate_def)
  next
    case (Inr response)
    from handle_response_events [of env msg response "(emit (Call_generate rpc) st)\<lparr>world := w\<rparr>"]
    obtain new where
      "events (snd (handle_response env msg response ((emit (Call_generate rpc) st)\<lparr>world := w\<rparr>))) =
         events st @ Call_generate rpc # new"
      "reply_ids new = [] \<or> reply_ids new = [msg_id msg]" "processing_ids new = []"
      by auto
    with Pair Inr show ?thesis
      by (simp add: call_generate_def)
  qed
qed

lemma process_private_events:
  "\<exists>new. events (snd (process_private env msg st)) =
       events st @ [Print_Processing (msg_id msg) (take 50 (text_of msg)), Print_Sending,
                    Call_generate (rpc_for env st msg)] @ new \<and>
     (reply_ids new = [] \<or> reply_ids new = [msg_id msg]) \<and> processing_ids new = []"
proof -
  let ?st3 = "emit Print_Sending
      ((emit (Print_Processing (msg_id msg) (take 50 (text_of msg))) st)
         \<lparr>conversation_history :=
            update_history (conversation_history st) (sender_id msg) ''User'' (text_of msg)\<rparr>)"
  from call_generate_events [of env msg "rpc_for env st msg" ?st3]
  obtain new where new:
    "events (snd (call_generate env msg (rpc_for env st msg) ?st3)) =
       events ?st3 @ Call_generate (rpc_for env st msg) # new"
    "reply_ids new = [] \<or> reply_ids new = [msg_id msg]" "processing_ids new = []"
    by blast
  obtain r st4 where r: "call_generate env msg (rpc_for env st msg) ?st3 = (r, st4)"
    by (cases "call_generate env msg (rpc_for env st msg) ?st3")
  show ?thesis
  proof (cases "\<exists>e. r = Some e \<and> is_Exception e")
    case True
    with r new show ?thesis
      by (auto simp: process_private_def rpc_for_def Let_def)
  next
    case False
    with r new show ?thesis
      by (cases r) (auto simp: process_private_def rpc_for_def Let_def)
  qed
qed

lemma process_message_events:
  "\<exists>new. events (snd (process_message env msg st)) = events st @ new \<and>
     (reply_ids new = [] \<or> reply_ids new = [msg_id msg]) \<and>
     (processing_ids new = [] \<or> processing_ids new = [msg_id msg])"
proof (cases "msg_out msg \<or> falsy (msg_text msg) \<or> msg_id msg \<in> processed_ids st")
  case True
  then show ?thesis
    by (simp add: process_message_def)
next
  case pass: False
  show ?thesis
  proof (cases "is_private msg")
    case False
    with pass show ?thesis
      by (simp add: process_message_def)
  next
    case True
    from process_private_events [of env msg st] obtain new where
      "events (snd (process_private env msg st)) =
         events st @ [Print_Processing (msg_id msg) (take 50 (text_of msg)), Print_Sending,
                      Call_generate (rpc_for env st msg)] @ new"
      "reply_ids new = [] \<or> reply_ids new = [msg_id msg]" "processing_ids new = []"
      by blast
    with pass True show ?thesis
      by (cases "process_private env msg st")
         (auto simp: process_message_def split: option.splits)
  qed
qed

lemma for_each_message_events:
  "\<exists>new. events (snd (for_each_message env msgs st)) = events st @ new \<and>
     subseq (reply_ids new) (map msg_id msgs) \<and>
     subseq (processing_ids new) (map msg_id msgs)"
proof (induction msgs arbitrary: st)
  case Nil
  show ?case by simp
next
  case (Cons msg msgs)
  obtain r st1 where step: "process_message env msg st = (r, st1)"
    by (cases "process_message env msg st")
  from process_message_events [of env msg st] step obtain new1 where new1:
    "events st1 = events st @ new1"
    "reply_ids new1 = [] \<or> reply_ids new1 = [msg_id msg]"
    "processing_ids new1 = [] \<or> processing_ids new1 = [msg_id msg]"
    by auto
  have first: "subseq (reply_ids new1) [msg_id msg]" "subseq (processing_ids new1) [msg_id msg]"
    using new1 by auto
  show ?case
  proof (cases r)
    case (Some e)
    from first have "subseq (reply_ids new1 @ []) ([msg_id msg] @ map msg_id msgs)"
      "subseq (processing_ids new1 @ []) ([msg_id msg] @ map msg_id msgs)"
      by (intro list_emb_append_mono; simp)+
    with Some step new1 show ?thesis
      by auto
  next
    case None
    from Cons.IH [of st1] obtain new2 where new2:
      "events (snd (for_each_message env msgs st1)) = events st1 @ new2"
      "subseq (reply_ids new2) (map msg_id msgs)"
      "subseq (processing_ids new2) (map msg_id msgs)"
      by blast
    from first new2 have "subseq (reply_ids new1 @ reply_ids new2) ([msg_id msg] @ map msg_id msgs)"
      "subseq (processing_ids new1 @ processing_ids new2) ([msg_id msg] @ map msg_id msgs)"
      by (intro list_emb_append_mono; simp)+
    with None step new1 new2 show ?thesis
      by auto
  qed
qed

lemma periodic_cleanup_events:
  "\<exists>new. events (periodic_cleanup env st) = events st @ new \<and>
     reply_ids new = [] \<and> processing_ids new = []"
  by (simp add: periodic_cleanup_def Let_def split: prod.splits)

lemma loop_handler_events:
  "\<exists>new. events (snd (loop_handler e st)) = events st @ new \<and>
     reply_ids new = [] \<and> processing_ids new = []"
  by (simp add: loop_handler_def)

text \<open>
  C7. When a poll fetches a batch (newest first), the replies issued in that cycle, and
  the messages whose processing starts in it, follow the reverse of the fetch order: their
  ids, in the order of the trace, form a subsequence of the reversed list of fetched ids.
\<close>

theorem replies_follow_reverse_fetch_order:
  assumes "get_messages env 20 (world st) = (Inr messages, w)"
  shows "\<exists>new. events (snd (poll_cycle env st)) = events st @ new \<and>
     subseq (reply_ids new) (rev (map msg_id messages)) \<and>
     subseq (processing_ids new) (rev (map msg_id messages))"
proof -
  let ?st1 = "(emit (Call_get_messages 20) st)\<lparr>world := w\<rparr>"
  obtain r st2 where loop: "for_each_message env (rev messages) ?st1 = (r, st2)"
    by (cases "for_each_message env (rev messages) ?st1")
  from for_each_message_events [of env "rev messages" ?st1] loop obtain new where new:
    "events st2 = events st @ Call_get_messages 20 # new"
    "subseq (reply_ids new) (rev (map msg_id messages))"
    "subseq (processing_ids new) (rev (map msg_id messages))"
    by (auto simp: rev_map)
  show ?thesis
  proof (cases r)
    case (Some e)
    from loop_handler_events [of e st2] obtain tail where
      "events (snd (loop_handler e st2)) = events st2 @ tail"
      "reply_ids tail = []" "processing_ids tail = []"
      by blast
    with assms loop Some new show ?thesis
      by (simp add: poll_cycle_def)
  next
    case None
    from periodic_cleanup_events [of env "emit (Sleep 2) st2"] obtain tail where
      "events (periodic_cleanup env (emit (Sleep 2) st2)) = events st2 @ Sleep 2 # tail"
      "reply_ids tail = []" "processing_ids tail = []"
      by auto
    with assms loop None new show ?thesis
      by (simp add: poll_cycle_def)
  qed
qed

theorem replies_follow_reverse_fetch_order_witness:
  "get_messages
     (example_env (Inr [example_message 2 ''second'', example_message 1 ''first''])
        (Inr (PDict [(''result'', PDict [(''content'', PStr ''ok'')])])) None)
     20 (world (example_bot {} None)) =
     (Inr [example_message 2 ''second'', example_message 1 ''first''], 0) \<and>
   (\<exists>new. events (snd (poll_cycle
        (example_env (Inr [example_message 2 ''second'', example_message 1 ''first''])
           (Inr (PDict [(''result'', PDict [(''content'', PStr ''ok'')])])) None)
        (example_bot {} None))) = events (example_bot {} None) @ new \<and>
      subseq (reply_ids new) [1, 2] \<and> subseq (processing_ids new) [1, 2]) \<and>
   reply_ids (events (snd (poll_cycle
        (example_env (Inr [example_message 2 ''second'', example_message 1 ''first''])
           (Inr (PDict [(''result'', PDict [(''content'', PStr ''ok'')])])) None)
        (example_bot {} None)))) = [1, 2]"
proof -
  let ?env = "example_env (Inr [example_message 2 ''second'', example_message 1 ''first''])
        (Inr (PDict [(''result'', PDict [(''content'', PStr ''ok'')])])) None"
  have fetched: "get_messages ?env 20 (world (example_bot {} None)) =
      (Inr [example_message 2 ''second'', example_message 1 ''first''], 0)"
    by (simp add: example_env_def example_bot_def)
  have ids: "rev (map msg_id [example_message 2 ''second'', example_message 1 ''first'']) = [1, 2]"
    by (simp add: example_message_def)
  have oldest_first: "reply_ids (events (snd (poll_cycle ?env (example_bot {} None)))) = [1, 2]"
    by (simp add: poll_cycle_def process_message_def process_private_def call_generate_def
        handle_response_def handle_result_def reply_text_of_def periodic_cleanup_def
        example_env_def example_message_def example_bot_def falsy_def Let_def)
  from replies_follow_reverse_fetch_order [OF fetched] fetched oldest_first show ?thesis
    unfolding ids by blast
qed

lemma for_each_message_all_seen:
  "list_all (\<lambda>m. msg_id m \<in> processed_ids st) msgs \<Longrightarrow>
     for_each_message env msgs st = (None, st)"
  by (induction msgs) (simp_all add: process_message_def)

text \<open>
  C4. A message that is self-authored, or has no text, or is not from a private chat, or
  whose id is already in the set of processed ids, is handled without any backend call and
  without any reply: the trace of events and the state of the collaborators are left as
  they were. A batch whose ids are all in the set already leaves the whole state as it
  was, so there is no further reply and no further line in the log.
\<close>

theorem filtered_message_is_silent:
  "((msg_out msg \<or> falsy (msg_text msg) \<or> \<not> is_private msg \<or> msg_id msg \<in> processed_ids st) \<longrightarrow>
      fst (process_message env msg st) = None \<and>
      events (snd (process_message env msg st)) = events st \<and>
      backend_calls (events (snd (process_message env msg st))) = backend_calls (events st) \<and>
      reply_ids (events (snd (process_message env msg st))) = reply_ids (events st) \<and>
      world (snd (process_message env msg st)) = world st) \<and>
   (list_all (\<lambda>m. msg_id m \<in> processed_ids st) msgs \<longrightarrow>
      for_each_message env (rev msgs) st = (None, st))"
proof (intro conjI impI)
  assume skip: "msg_out msg \<or> falsy (msg_text msg) \<or> \<not> is_private msg \<or>
    msg_id msg \<in> processed_ids st"
  then have unchanged: "fst (process_message env msg st) = None \<and>
      events (snd (process_message env msg st)) = events st \<and>
      world (snd (process_message env msg st)) = world st"
    by (auto simp: process_message_def)
  then show "fst (process_message env msg st) = None"
    and "events (snd (process_message env msg st)) = events st"
    and "backend_calls (events (snd (process_message env msg st))) = backend_calls (events st)"
    and "reply_ids (events (snd (process_message env msg st))) = reply_ids (events st)"
    and "world (snd (process_message env msg st)) = world st"
    by simp_all
next
  assume "list_all (\<lambda>m. msg_id m \<in> processed_ids st) msgs"
  then have "list_all (\<lambda>m. msg_id m \<in> processed_ids st) (rev msgs)"
    by (simp add: list_all_iff)
  then show "for_each_message env (rev msgs) st = (None, st)"
    by (rule for_each_message_all_seen)
qed

theorem filtered_message_is_silent_witness:
  "msg_id (example_message 42 ''Hello'') \<in> processed_ids (example_bot {42} None) \<and>
   fst (process_message (example_env (Inr []) (Inr PNone) None) (example_message 42 ''Hello'')
          (example_bot {42} None)) = None \<and>
   events (snd (process_message (example_env (Inr []) (Inr PNone) None)
          (example_message 42 ''Hello'') (example_bot {42} None))) = [] \<and>
   \<not> is_private ((example_message 43 ''Hello'')\<lparr>is_private := False\<rparr>) \<and>
   events (snd (process_message (example_env (Inr []) (Inr PNone) None)
          ((example_message 43 ''Hello'')\<lparr>is_private := False\<rparr>) (example_bot {42} None))) = [] \<and>
   list_all (\<lambda>m. msg_id m \<in> processed_ids (example_bot {42} None))
     [example_message 42 ''Hello''] \<and>
   for_each_message (example_env (Inr []) (Inr PNone) None)
     (rev [example_message 42 ''Hello'']) (example_bot {42} None) = (None, example_bot {42} None)"
proof -
  have seen: "msg_id (example_message 42 ''Hello'') \<in> processed_ids (example_bot {42} None)"
    by (simp add: example_message_def example_bot_def)
  then have batch: "list_all (\<lambda>m. msg_id m \<in> processed_ids (example_bot {42} None))
      [example_message 42 ''Hello'']"
    by simp
  have outside: "\<not> is_private ((example_message 43 ''Hello'')\<lparr>is_private := False\<rparr>)"
    by simp
  have start: "events (example_bot {42} None) = []"
    by (simp add: example_bot_def)
  from seen batch outside
    filtered_message_is_silent [of "example_message 42 ''Hello''" "example_bot {42} None"
      "example_env (Inr []) (Inr PNone) None" "[example_message 42 ''Hello'']"]
    filtered_message_is_silent [of "(example_message 43 ''Hello'')\<lparr>is_private := False\<rparr>"
      "example_bot {42} None" "example_env (Inr []) (Inr PNone) None" "[]"]
  show ?thesis
    unfolding start by blast
qed

text \<open>What the private branch can raise.\<close>

lemma handle_result_raises:
  "fst (handle_result env msg result st) = Some e \<Longrightarrow>
     \<exists>t w. fst (reply env msg t w) = Some e"
proof -
  assume raised: "fst (handle_result env msg result st) = Some e"
  obtain r w where call: "reply env msg (reply_text_of result) (world st) = (r, w)"
    by (cases "reply env msg (reply_text_of result) (world st)")
  with raised have "r = Some e"
    by (cases r) (simp_all add: handle_result_def)
  with call have "fst (reply env msg (reply_text_of result) (world st)) = Some e"
    by simp
  then show ?thesis
    by blast
qed

lemma handle_error_raises: "fst (handle_error msg err st) = Some e \<Longrightarrow> is_Exception e"
  by (cases err) (auto simp: handle_error_def Let_def split: pyval.splits if_splits)

lemma handle_response_raises:
  assumes "transient_only env" and "fst (handle_response env msg response st) = Some e"
  shows "is_Exception e"
proof (cases response)
  case (PDict d)
  show ?thesis
  proof (cases "map_of d ''result''")
    case (Some result)
    with PDict assms(2) have "fst (handle_result env msg result st) = Some e"
      by (simp add: handle_response_def)
    then obtain t w where "fst (reply env msg t w) = Some e"
      using handle_result_raises by blast
    with assms(1) show ?thesis
      unfolding transient_only_def by blast
  next
    case None
    with PDict assms(2) show ?thesis
      by (auto simp: handle_response_def split: option.splits dest: handle_error_raises)
  qed
qed (use assms(2) in \<open>simp_all add: handle_response_def\<close>)

lemma call_generate_raises:
  assumes "transient_only env" and "fst (call_generate env msg rpc st) = Some e"
  shows "is_Exception e"
proof (cases "generate_G2_flash env rpc (world st)")
  case (Pair r w)
  show ?thesis
  proof (cases r)
    case (Inl e')
    with Pair assms(2) have "e' = e"
      by (simp add: call_generate_def)
    with Pair Inl have "fst (generate_G2_flash env rpc (world st)) = Inl e"
      by simp
    with assms(1) show ?thesis
      unfolding transient_only_def by blast
  next
    case (Inr response)
    with Pair assms(2) show ?thesis
      by (auto simp: call_generate_def intro: handle_response_raises [OF assms(1)])
  qed
qed

lemma process_private_raises:
  "fst (process_private env msg st) = Some e \<Longrightarrow> \<not> is_Exception e"
  by (auto simp: process_private_def Let_def split: prod.splits option.splits if_splits)

lemma process_private_completes:
  assumes "transient_only env"
  shows "fst (process_private env msg st) = None"
proof -
  let ?st3 = "emit Print_Sending
      ((emit (Print_Processing (msg_id msg) (take 50 (text_of msg))) st)
         \<lparr>conversation_history :=
            update_history (conversation_history st) (sender_id msg) ''User'' (text_of msg)\<rparr>)"
  obtain r st4 where r: "call_generate env msg (rpc_for env st msg) ?st3 = (r, st4)"
    by (cases "call_generate env msg (rpc_for env st msg) ?st3")
  show ?thesis
  proof (cases r)
    case None
    with r show ?thesis
      by (simp add: process_private_def rpc_for_def Let_def)
  next
    case (Some e)
    with r have "fst (call_generate env msg (rpc_for env st msg) ?st3) = Some e"
      by simp
    with assms have "is_Exception e"
      by (rule call_generate_raises)
    with r Some show ?thesis
      by (simp add: process_private_def rpc_for_def Let_def)
  qed
qed

lemma process_message_raises:
  "fst (process_message env msg st) = Some e \<Longrightarrow> \<not> is_Exception e"
proof -
  assume raised: "fst (process_message env msg st) = Some e"
  then have pass: "\<not> (msg_out msg \<or> falsy (msg_text msg) \<or> msg_id msg \<in> processed_ids st)"
    by (auto simp: process_message_def)
  show ?thesis
  proof (cases "is_private msg")
    case False
    with pass raised show ?thesis
      by (simp add: process_message_def)
  next
    case True
    with pass raised have "fst (process_private env msg st) = Some e"
      by (cases "process_private env msg st")
         (auto simp: process_message_def split: option.splits)
    then show ?thesis
      by (rule process_private_raises)
  qed
qed

lemma process_message_completes:
  assumes "transient_only env"
  shows "fst (process_message env msg st) = None"
  using process_private_completes [OF assms, of msg st]
  by (cases "process_private env msg st") (auto simp: process_message_def)

lemma for_each_message_completes:
  assumes "transient_only env"
  shows "fst (for_each_message env msgs st) = None"
proof (induction msgs arbitrary: st)
  case Nil
  show ?case by simp
next
  case (Cons msg msgs)
  from process_message_completes [OF assms, of msg st]
  obtain st1 where "process_message env msg st = (None, st1)"
    by (cases "process_message env msg st") auto
  with Cons.IH [of st1] show ?case
    by simp
qed

lemma for_each_message_raises:
  "fst (for_each_message env msgs st) = Some e \<Longrightarrow> \<not> is_Exception e"
proof (induction msgs arbitrary: st)
  case Nil
  then show ?case by simp
next
  case (Cons msg msgs)
  obtain r st1 where step: "process_message env msg st = (r, st1)"
    by (cases "process_message env msg st")
  show ?case
  proof (cases r)
    case None
    with step Cons show ?thesis by simp
  next
    case (Some e')
    with step Cons.prems have "fst (process_message env msg st) = Some e"
      by simp
    then show ?thesis
      by (rule process_message_raises)
  qed
qed

text \<open>
  C9. A message that is not self-authored, has text and whose id is not yet in the set of
  processed ids is recorded when its iteration ends: its id is in the set and is the last
  line of the log. This holds for a private chat whatever the backend answered, and for a
  message outside a private chat, which is recorded and nothing else (no event, no call).
  An iteration that does not end was cut by something that is not an \<open>Exception\<close>.
\<close>

theorem unfiltered_message_is_recorded:
  assumes "\<not> msg_out msg" and "\<not> falsy (msg_text msg)" and "msg_id msg \<notin> processed_ids st"
  shows "(fst (process_message env msg st) = None \<longrightarrow>
            msg_id msg \<in> processed_ids (snd (process_message env msg st)) \<and>
            (\<exists>before. processed_file (snd (process_message env msg st)) =
               Some (before @ str_int (msg_id msg) @ [LF]))) \<and>
         (\<forall>e. fst (process_message env msg st) = Some e \<longrightarrow> \<not> is_Exception e) \<and>
         (\<not> is_private msg \<longrightarrow>
            process_message env msg st =
              (None, st\<lparr>processed_ids := insert (msg_id msg) (processed_ids st),
                        processed_file :=
                          Some (file_content (processed_file st) @ str_int (msg_id msg) @ [LF])\<rparr>))"
proof (intro conjI impI allI)
  assume ended: "fst (process_message env msg st) = None"
  obtain r st1 where branch:
    "(if is_private msg then process_private env msg st else (None, st)) = (r, st1)"
    by (cases "if is_private msg then process_private env msg st else (None, st)")
  with assms ended have r: "r = None"
    by (cases r) (simp_all add: process_message_def)
  with assms branch have result: "snd (process_message env msg st) = add_and_save (msg_id msg) st1"
    by (simp add: process_message_def)
  show "msg_id msg \<in> processed_ids (snd (process_message env msg st))"
    by (simp add: result)
  show "\<exists>before. processed_file (snd (process_message env msg st)) =
      Some (before @ str_int (msg_id msg) @ [LF])"
    by (simp add: result save_processed_id_def)
next
  fix e
  assume "fst (process_message env msg st) = Some e"
  then show "\<not> is_Exception e"
    by (rule process_message_raises)
next
  assume "\<not> is_private msg"
  with assms show "process_message env msg st =
      (None, st\<lparr>processed_ids := insert (msg_id msg) (processed_ids st),
                processed_file :=
                  Some (file_content (processed_file st) @ str_int (msg_id msg) @ [LF])\<rparr>)"
    by (simp add: process_message_def add_and_save_def save_processed_id_def)
qed

lemma example_env_transient:
  assumes "\<And>e. fetched = Inl e \<Longrightarrow> is_Exception e"
    and "\<And>e. answer = Inl e \<Longrightarrow> is_Exception e"
    and "\<And>e. replied = Some e \<Longrightarrow> is_Exception e"
  shows "transient_only (example_env fetched answer replied)"
  using assms by (simp add: transient_only_def example_env_def)

lemma str_int_42: "str_int 42 = ''42''"
  by code_simp

lemma quota_exceeded_has_no_method: "\<not> str_contains ''method'' (lower ''quota exceeded'')"
  by code_simp

lemma no_such_method_mentions_method: "str_contains ''method'' (lower ''no such method'')"
  by code_simp

theorem unfiltered_message_is_recorded_witness:
  "\<not> msg_out (example_message 42 ''Hello'') \<and>
   \<not> falsy (msg_text (example_message 42 ''Hello'')) \<and>
   msg_id (example_message 42 ''Hello'') \<notin> processed_ids (example_bot {} None) \<and>
   fst (process_message (example_env (Inr []) (Inr PNone) None) (example_message 42 ''Hello'')
          (example_bot {} None)) = None \<and>
   42 \<in> processed_ids (snd (process_message (example_env (Inr []) (Inr PNone) None)
          (example_message 42 ''Hello'') (example_bot {} None))) \<and>
   (\<exists>before. processed_file (snd (process_message (example_env (Inr []) (Inr PNone) None)
          (example_message 42 ''Hello'') (example_bot {} None))) = Some (before @ ''42'' @ [LF])) \<and>
   \<not> msg_out ((example_message 42 ''Hello'')\<lparr>is_private := False\<rparr>) \<and>
   \<not> falsy (msg_text ((example_message 42 ''Hello'')\<lparr>is_private := False\<rparr>)) \<and>
   msg_id ((example_message 42 ''Hello'')\<lparr>is_private := False\<rparr>) \<notin>
     processed_ids (example_bot {} None) \<and>
   \<not> is_private ((example_message 42 ''Hello'')\<lparr>is_private := False\<rparr>) \<and>
   process_message (example_env (Inr []) (Inr PNone) None)
       ((example_message 42 ''Hello'')\<lparr>is_private := False\<rparr>) (example_bot {} None) =
     (None, (example_bot {} None)\<lparr>processed_ids := {42}, processed_file := Some (''42'' @ [LF])\<rparr>) \<and>
   fst (process_message
       (example_env (Inr []) (Inl (BaseException ''KeyboardInterrupt'')) None)
       (example_message 42 ''Hello'') (example_bot {} None)) =
     Some (BaseException ''KeyboardInterrupt'') \<and>
   \<not> is_Exception (BaseException ''KeyboardInterrupt'')"
proof -
  let ?env = "example_env (Inr []) (Inr PNone) None"
  let ?interrupted = "example_env (Inr []) (Inl (BaseException ''KeyboardInterrupt'')) None"
  let ?msg = "example_message 42 ''Hello''"
  let ?group = "(example_message 42 ''Hello'')\<lparr>is_private := False\<rparr>"
  let ?st = "example_bot {} None"
  have inbound: "\<not> msg_out ?msg" and has_text: "\<not> falsy (msg_text ?msg)"
    and unseen: "msg_id ?msg \<notin> processed_ids ?st" and id: "msg_id ?msg = 42"
    by (simp_all add: example_message_def example_bot_def falsy_def)
  have inbound': "\<not> msg_out ?group" and has_text': "\<not> falsy (msg_text ?group)"
    and unseen': "msg_id ?group \<notin> processed_ids ?st" and id': "msg_id ?group = 42"
    and outside: "\<not> is_private ?group"
    by (simp_all add: example_message_def example_bot_def falsy_def)
  have start: "insert 42 (processed_ids ?st) = {42}" "file_content (processed_file ?st) = []"
    by (simp_all add: example_bot_def file_content_def)
  have "transient_only ?env"
    by (rule example_env_transient) simp_all
  then have ended: "fst (process_message ?env ?msg ?st) = None"
    by (rule process_message_completes)
  have cut: "fst (process_message ?interrupted ?msg ?st) = Some (BaseException ''KeyboardInterrupt'')"
    by (simp add: process_message_def process_private_def call_generate_def
        example_env_def example_message_def example_bot_def falsy_def Let_def)
  from unfiltered_message_is_recorded [OF inbound has_text unseen, of ?env]
    unfiltered_message_is_recorded [OF inbound' has_text' unseen', of ?env]
    unfiltered_message_is_recorded [OF inbound has_text unseen, of ?interrupted]
    ended cut inbound has_text unseen inbound' has_text' unseen' outside
  show ?thesis
    unfolding id id' str_int_42 start append_Nil by blast
qed

text \<open>
  C1 fails on the code. The backend answers with the error \<open>no such method\<close>; the branch
  for errors leaves the id unmarked, but the unconditional record that ends the iteration
  adds the id 42 to the set and writes it to the log, and a second pass over the same
  message skips it: there is no retry.
\<close>

theorem method_error_is_marked_handled:
  "42 \<in> processed_ids (snd (process_message
      (example_env (Inr []) (Inr (PDict [(''error'', PDict [(''message'', PStr ''no such method'')])])) None)
      (example_message 42 ''Hello'') (example_bot {} None))) \<and>
   processed_file (snd (process_message
      (example_env (Inr []) (Inr (PDict [(''error'', PDict [(''message'', PStr ''no such method'')])])) None)
      (example_message 42 ''Hello'') (example_bot {} None))) = Some (''42'' @ [LF]) \<and>
   process_message
      (example_env (Inr []) (Inr (PDict [(''error'', PDict [(''message'', PStr ''no such method'')])])) None)
      (example_message 42 ''Hello'')
      (snd (process_message
        (example_env (Inr []) (Inr (PDict [(''error'', PDict [(''message'', PStr ''no such method'')])])) None)
        (example_message 42 ''Hello'') (example_bot {} None))) =
    (None, snd (process_message
      (example_env (Inr []) (Inr (PDict [(''error'', PDict [(''message'', PStr ''no such method'')])])) None)
      (example_message 42 ''Hello'') (example_bot {} None)))"
proof -
  let ?env = "example_env (Inr [])
      (Inr (PDict [(''error'', PDict [(''message'', PStr ''no such method'')])])) None"
  let ?msg = "example_message 42 ''Hello''"
  let ?st1 = "snd (process_message ?env ?msg (example_bot {} None))"
  have marked: "42 \<in> processed_ids ?st1"
    and logged: "processed_file ?st1 = Some (''42'' @ [LF])"
    by (simp_all add: process_message_def process_private_def call_generate_def
        handle_response_def handle_error_def error_message_def example_env_def
        example_message_def example_bot_def falsy_def Let_def save_processed_id_def
        file_content_def str_int_42 no_such_method_mentions_method)
  from marked have "process_message ?env ?msg ?st1 = (None, ?st1)"
    by (simp add: process_message_def example_message_def)
  with marked logged show ?thesis
    by blast
qed

text \<open>
  C10 as stated fails: the backend answers with a result, the reply call raises, the
  handler of the inner \<open>try\<close> takes over before the record of the result branch, and
  the id 42 is written to the log once, by the trailing record alone.
\<close>

theorem result_with_failed_reply_is_logged_once:
  "processed_file (snd (process_message
      (example_env (Inr []) (Inr (PDict [(''result'', PDict [(''content'', PStr ''Hi'')])]))
         (Some (Exception ''reply failed'')))
      (example_message 42 ''Hello'') (example_bot {} None))) = Some (''42'' @ [LF]) \<and>
   processed_file (snd (process_message
      (example_env (Inr []) (Inr (PDict [(''result'', PDict [(''content'', PStr ''Hi'')])]))
         (Some (Exception ''reply failed'')))
      (example_message 42 ''Hello'') (example_bot {} None))) \<noteq> Some (''42'' @ [LF] @ ''42'' @ [LF])"
  by (simp add: process_message_def process_private_def call_generate_def
      handle_response_def handle_result_def example_env_def
      example_message_def example_bot_def falsy_def Let_def save_processed_id_def
      file_content_def str_int_42)

text \<open>
  C10 (as amended). For a private message that passes the filter, when the backend answers
  with a mapping that holds a result and the reply call returns normally, or with a mapping
  that holds no result and an error mapping whose message is absent or a string without
  \<open>method\<close> in its lower-case form, the iteration ends and has written the id to the log
  twice.
\<close>

theorem handled_message_is_logged_twice:
  assumes "\<not> msg_out msg" and "\<not> falsy (msg_text msg)" and "msg_id msg \<notin> processed_ids st"
    and "is_private msg"
    and "generate_G2_flash env (rpc_for env st msg) (world st) = (Inr (PDict d), w1)"
    and "(\<exists>result w2. map_of d ''result'' = Some result \<and>
            reply env msg (reply_text_of result) w1 = (None, w2)) \<or>
         (map_of d ''result'' = None \<and>
            (\<exists>ed s. map_of d ''error'' = Some (PDict ed) \<and> error_message ed = PStr s \<and>
               \<not> str_contains ''method'' (lower s)))"
  shows "fst (process_message env msg st) = None \<and>
     processed_ids (snd (process_message env msg st)) = insert (msg_id msg) (processed_ids st) \<and>
     processed_file (snd (process_message env msg st)) =
       Some (file_content (processed_file st) @
             str_int (msg_id msg) @ [LF] @ str_int (msg_id msg) @ [LF])"
proof -
  let ?st3 = "emit Print_Sending
      ((emit (Print_Processing (msg_id msg) (take 50 (text_of msg))) st)
         \<lparr>conversation_history :=
            update_history (conversation_history st) (sender_id msg) ''User'' (text_of msg)\<rparr>)"
  let ?st4 = "(emit (Call_generate (rpc_for env st msg)) ?st3)\<lparr>world := w1\<rparr>"
  have call: "call_generate env msg (rpc_for env st msg) ?st3 =
      handle_response env msg (PDict d) ?st4"
    using assms(5) by (simp add: call_generate_def)
  have "\<exists>st5. handle_response env msg (PDict d) ?st4 = (None, st5) \<and>
      processed_ids st5 = insert (msg_id msg) (processed_ids st) \<and>
      processed_file st5 = Some (file_content (processed_file st) @ str_int (msg_id msg) @ [LF])"
    using assms(6)
  proof (elim disjE exE conjE)
    fix result w2
    assume "map_of d ''result'' = Some result"
      and "reply env msg (reply_text_of result) w1 = (None, w2)"
    then show ?thesis
      by (simp add: handle_response_def handle_result_def save_processed_id_def)
  next
    fix ed s
    assume "map_of d ''result'' = None" and "map_of d ''error'' = Some (PDict ed)"
      and "error_message ed = PStr s" and "\<not> str_contains ''method'' (lower s)"
    then show ?thesis
      by (simp add: handle_response_def handle_error_def save_processed_id_def)
  qed
  then obtain st5 where st5: "handle_response env msg (PDict d) ?st4 = (None, st5)"
    "processed_ids st5 = insert (msg_id msg) (processed_ids st)"
    "processed_file st5 = Some (file_content (processed_file st) @ str_int (msg_id msg) @ [LF])"
    by blast
  with call have "process_private env msg st = (None, st5)"
    by (simp add: process_private_def rpc_for_def Let_def)
  with assms(1-4) have "process_message env msg st = (None, add_and_save (msg_id msg) st5)"
    by (simp add: process_message_def)
  with st5 show ?thesis
    by (simp add: save_processed_id_def file_content_def)
qed

theorem handled_message_is_logged_twice_witness:
  "\<not> msg_out (example_message 42 ''Hello'') \<and>
   \<not> falsy (msg_text (example_message 42 ''Hello'')) \<and>
   msg_id (example_message 42 ''Hello'') \<notin> processed_ids (example_bot {} None) \<and>
   is_private (example_message 42 ''Hello'') \<and>
   generate_G2_flash
     (example_env (Inr []) (Inr (PDict [(''result'', PDict [(''content'', PStr ''Hi'')])])) None)
     (rpc_for
        (example_env (Inr []) (Inr (PDict [(''result'', PDict [(''content'', PStr ''Hi'')])])) None)
        (example_bot {} None) (example_message 42 ''Hello''))
     (world (example_bot {} None)) =
     (Inr (PDict [(''result'', PDict [(''content'', PStr ''Hi'')])]), 0) \<and>
   map_of [(''result'', PDict [(''content'', PStr ''Hi'')])] ''result'' =
     Some (PDict [(''content'', PStr ''Hi'')]) \<and>
   reply
     (example_env (Inr []) (Inr (PDict [(''result'', PDict [(''content'', PStr ''Hi'')])])) None)
     (example_message 42 ''Hello'') (reply_text_of (PDict [(''content'', PStr ''Hi'')])) 0 =
     (None, 0) \<and>
   processed_file (snd (process_message
      (example_env (Inr []) (Inr (PDict [(''result'', PDict [(''content'', PStr ''Hi'')])])) None)
      (example_message 42 ''Hello'') (example_bot {} None))) =
     Some (''42'' @ [LF] @ ''42'' @ [LF]) \<and>
   generate_G2_flash
     (example_env (Inr [])
        (Inr (PDict [(''error'', PDict [(''message'', PStr ''quota exceeded'')])])) None)
     (rpc_for
        (example_env (Inr [])
           (Inr (PDict [(''error'', PDict [(''message'', PStr ''quota exceeded'')])])) None)
        (example_bot {} None) (example_message 42 ''Hello''))
     (world (example_bot {} None)) =
     (Inr (PDict [(''error'', PDict [(''message'', PStr ''quota exceeded'')])]), 0) \<and>
   map_of [(''error'', PDict [(''message'', PStr ''quota exceeded'')])] ''result'' = None \<and>
   map_of [(''error'', PDict [(''message'', PStr ''quota exceeded'')])] ''error'' =
     Some (PDict [(''message'', PStr ''quota exceeded'')]) \<and>
   error_message [(''message'', PStr ''quota exceeded'')] = PStr ''quota exceeded'' \<and>
   \<not> str_contains ''method'' (lower ''quota exceeded'') \<and>
   processed_file (snd (process_message
      (example_env (Inr [])
         (Inr (PDict [(''error'', PDict [(''message'', PStr ''quota exceeded'')])])) None)
      (example_message 42 ''Hello'') (example_bot {} None))) =
     Some (''42'' @ [LF] @ ''42'' @ [LF])"
proof -
  let ?env = "example_env (Inr [])
      (Inr (PDict [(''result'', PDict [(''content'', PStr ''Hi'')])])) None"
  let ?failing = "example_env (Inr [])
      (Inr (PDict [(''error'', PDict [(''message'', PStr ''quota exceeded'')])])) None"
  let ?msg = "example_message 42 ''Hello''"
  let ?st = "example_bot {} None"
  have inbound: "\<not> msg_out ?msg" and has_text: "\<not> falsy (msg_text ?msg)"
    and unseen: "msg_id ?msg \<notin> processed_ids ?st" and in_private: "is_private ?msg"
    by (simp_all add: example_message_def example_bot_def falsy_def)
  have answer: "generate_G2_flash ?env (rpc_for ?env ?st ?msg) (world ?st) =
      (Inr (PDict [(''result'', PDict [(''content'', PStr ''Hi'')])]), 0)"
    by (simp add: example_env_def example_bot_def)
  have result: "map_of [(''result'', PDict [(''content'', PStr ''Hi'')])] ''result'' =
      Some (PDict [(''content'', PStr ''Hi'')])"
    by simp
  have replied: "reply ?env ?msg (reply_text_of (PDict [(''content'', PStr ''Hi'')])) 0 = (None, 0)"
    by (simp add: example_env_def)
  from result replied have either:
    "(\<exists>result w2. map_of [(''result'', PDict [(''content'', PStr ''Hi'')])] ''result'' = Some result \<and>
        reply ?env ?msg (reply_text_of result) 0 = (None, w2)) \<or>
     (map_of [(''result'', PDict [(''content'', PStr ''Hi'')])] ''result'' = None \<and>
        (\<exists>ed s. map_of [(''result'', PDict [(''content'', PStr ''Hi'')])] ''error'' = Some (PDict ed) \<and>
           error_message ed = PStr s \<and> \<not> str_contains ''method'' (lower s)))"
    by blast
  have failure: "generate_G2_flash ?failing (rpc_for ?failing ?st ?msg) (world ?st) =
      (Inr (PDict [(''error'', PDict [(''message'', PStr ''quota exceeded'')])]), 0)"
    by (simp add: example_env_def example_bot_def)
  have no_result: "map_of [(''error'', PDict [(''message'', PStr ''quota exceeded'')])] ''result'' = None"
    and error: "map_of [(''error'', PDict [(''message'', PStr ''quota exceeded'')])] ''error'' =
      Some (PDict [(''message'', PStr ''quota exceeded'')])"
    and message: "error_message [(''message'', PStr ''quota exceeded'')] = PStr ''quota exceeded''"
    by (simp_all add: error_message_def)
  from no_result error message quota_exceeded_has_no_method have or_else:
    "(\<exists>result w2. map_of [(''error'', PDict [(''message'', PStr ''quota exceeded'')])] ''result'' =
          Some result \<and>
        reply ?failing ?msg (reply_text_of result) 0 = (None, w2)) \<or>
     (map_of [(''error'', PDict [(''message'', PStr ''quota exceeded'')])] ''result'' = None \<and>
        (\<exists>ed s. map_of [(''error'', PDict [(''message'', PStr ''quota exceeded'')])] ''error'' =
            Some (PDict ed) \<and>
           error_message ed = PStr s \<and> \<not> str_contains ''method'' (lower s)))"
    by blast
  have facts: "msg_id ?msg = 42" "file_content (processed_file ?st) = []"
    by (simp_all add: example_message_def example_bot_def file_content_def)
  from handled_message_is_logged_twice [OF inbound has_text unseen in_private answer either]
  have twice: "processed_file (snd (process_message ?env ?msg ?st)) =
      Some (''42'' @ [LF] @ ''42'' @ [LF])"
    by (simp add: facts str_int_42)
  from handled_message_is_logged_twice [OF inbound has_text unseen in_private failure or_else]
  have twice': "processed_file (snd (process_message ?failing ?msg ?st)) =
      Some (''42'' @ [LF] @ ''42'' @ [LF])"
    by (simp add: facts str_int_42)
  from twice twice' inbound has_text unseen in_private answer result replied
    failure no_result error message quota_exceeded_has_no_method
  show ?thesis
    by blast
qed

lemma str_contains_infix: "str_contains needle (before @ needle @ after)"
proof (induction before)
  case Nil
  show ?case
  proof (cases "needle @ after")
    case Nil
    then show ?thesis by simp
  next
    case (Cons c cs)
    have "take (length needle) (needle @ after) = needle"
      by simp
    then have "take (length needle) (c # cs) = needle"
      by (simp only: Cons)
    then have "str_contains needle (c # cs)"
      by simp
    then show ?thesis
      by (simp only: Cons append_Nil)
  qed
next
  case (Cons c before)
  then show ?case by simp
qed

lemma backend_calls_simps [simp]:
  "backend_calls [] = []"
  "backend_calls (xs @ ys) = backend_calls xs @ backend_calls ys"
  "backend_calls (Call_generate rq # xs) = rq # backend_calls xs"
  "backend_calls (Call_get_messages n # xs) = backend_calls xs"
  "backend_calls (Print_Processing i s # xs) = backend_calls xs"
  "backend_calls (Print_Sending # xs) = backend_calls xs"
  "backend_calls (Call_reply i t # xs) = backend_calls xs"
  "backend_calls (Print_Replied i # xs) = backend_calls xs"
  "backend_calls (Print_Gemini_Error v # xs) = backend_calls xs"
  "backend_calls (Print_Unexpected_Type v # xs) = backend_calls xs"
  "backend_calls (Print_Gemini_Crash e # xs) = backend_calls xs"
  "backend_calls (Sleep n # xs) = backend_calls xs"
  "backend_calls (Print_Cleanup # xs) = backend_calls xs"
  "backend_calls (Print_Loop_Error e # xs) = backend_calls xs"
  by (simp_all add: backend_calls_def)

lemma handle_response_backend_calls:
  "backend_calls (events (snd (handle_response env msg response st))) = backend_calls (events st)"
proof (cases response)
  case (PDict d)
  show ?thesis
  proof (cases "map_of d ''result''")
    case (Some result)
    with PDict show ?thesis
      by (simp add: handle_response_def handle_result_def Let_def split: prod.splits option.splits)
  next
    case None
    show ?thesis
    proof (cases "map_of d ''error''")
      case (Some err)
      with PDict None show ?thesis
        by (cases err)
           (simp_all add: handle_response_def handle_error_def Let_def split: pyval.splits)
    next
      case no_error: None
      with PDict None show ?thesis
        by (simp add: handle_response_def)
    qed
  qed
qed (simp_all add: handle_response_def)

lemma call_generate_backend_calls:
  "backend_calls (events (snd (call_generate env msg rpc st))) = backend_calls (events st) @ [rpc]"
proof (cases "generate_G2_flash env rpc (world st)")
  case (Pair r w)
  show ?thesis
  proof (cases r)
    case (Inl e)
    with Pair show ?thesis
      by (simp add: call_generate_def)
  next
    case (Inr response)
    with Pair
      handle_response_backend_calls [of env msg response "(emit (Call_generate rpc) st)\<lparr>world := w\<rparr>"]
    show ?thesis
      by (simp add: call_generate_def)
  qed
qed

lemma process_private_backend_calls:
  "backend_calls (events (snd (process_private env msg st))) =
     backend_calls (events st) @ [rpc_for env st msg]"
proof -
  let ?st3 = "emit Print_Sending
      ((emit (Print_Processing (msg_id msg) (take 50 (text_of msg))) st)
         \<lparr>conversation_history :=
            update_history (conversation_history st) (sender_id msg) ''User'' (text_of msg)\<rparr>)"
  obtain r st4 where r: "call_generate env msg (rpc_for env st msg) ?st3 = (r, st4)"
    by (cases "call_generate env msg (rpc_for env st msg) ?st3")
  with call_generate_backend_calls [of env msg "rpc_for env st msg" ?st3]
  have "backend_calls (events st4) = backend_calls (events st) @ [rpc_for env st msg]"
    by simp
  with r show ?thesis
    by (cases r) (simp_all add: process_private_def rpc_for_def Let_def)
qed

text \<open>
  C6. The prompt is the knowledge text, the history block of the user (present only when
  the user's history is not empty), the line \<open>Current message:\<close> with the new message and
  the fixed closing instruction, in that order, with fixed separators. It depends on the
  history of that user only. For an inbound private message with a text that passes the
  filter, the iteration makes one backend call, and the prompt of its request contains
  \<open>Current message:\<close> followed by the text.
\<close>

theorem prompt_is_assembled_in_order:
  "build_prompt_with_history knowledge h u current =
     knowledge @ [LF, LF] @ ''    '' @
     (if h u = [] then []
      else ''Previous conversation:'' @ [LF] @
           concat (map history_line (last_n MAX_HISTORY (h u))) @ [LF]) @
     ''Current message: '' @ current @ [LF, LF] @
     ''    Please respond appropriately based on the context and previous conversation.'' \<and>
   (h u = h' u \<longrightarrow>
      build_prompt_with_history knowledge h u current =
      build_prompt_with_history knowledge h' u current) \<and>
   (\<not> msg_out msg \<and> msg_text msg = Some t \<and> t \<noteq> [] \<and> msg_id msg \<notin> processed_ids st \<and>
    is_private msg \<longrightarrow>
      backend_calls (events (snd (process_message env msg st))) =
        backend_calls (events st) @ [rpc_for env st msg] \<and>
      str_contains (''Current message: '' @ t) (params_prompt (rpc_for env st msg)))"
proof (intro conjI impI)
  show "build_prompt_with_history knowledge h u current =
     knowledge @ [LF, LF] @ ''    '' @
     (if h u = [] then []
      else ''Previous conversation:'' @ [LF] @
           concat (map history_line (last_n MAX_HISTORY (h u))) @ [LF]) @
     ''Current message: '' @ current @ [LF, LF] @
     ''    Please respond appropriately based on the context and previous conversation.''"
    unfolding build_prompt_with_history_def history_text_eq ..
next
  assume "h u = h' u"
  then show "build_prompt_with_history knowledge h u current =
      build_prompt_with_history knowledge h' u current"
    by (simp add: build_prompt_with_history_def)
next
  assume pass: "\<not> msg_out msg \<and> msg_text msg = Some t \<and> t \<noteq> [] \<and>
    msg_id msg \<notin> processed_ids st \<and> is_private msg"
  then have "snd (process_message env msg st) =
      (case process_private env msg st of
         (Some e, st1) \<Rightarrow> st1
       | (None, st1) \<Rightarrow> add_and_save (msg_id msg) st1)"
    by (simp add: process_message_def falsy_def split: prod.splits option.splits)
  then have "events (snd (process_message env msg st)) = events (snd (process_private env msg st))"
    by (simp split: prod.splits option.splits)
  then show "backend_calls (events (snd (process_message env msg st))) =
      backend_calls (events st) @ [rpc_for env st msg]"
    by (simp add: process_private_backend_calls)
next
  assume pass: "\<not> msg_out msg \<and> msg_text msg = Some t \<and> t \<noteq> [] \<and>
    msg_id msg \<notin> processed_ids st \<and> is_private msg"
  then have t: "text_of msg = t"
    by (simp add: text_of_def)
  let ?h = "update_history (conversation_history st) (sender_id msg) ''User'' t"
  have "params_prompt (rpc_for env st msg) =
      (KNOWLEDGE env @ [LF, LF] @ ''    '' @ history_text (?h (sender_id msg))) @
      (''Current message: '' @ t) @
      ([LF, LF] @ ''    Please respond appropriately based on the context and previous conversation.'')"
    by (simp add: rpc_for_def rpc_request_of_def build_prompt_with_history_def t)
  then show "str_contains (''Current message: '' @ t) (params_prompt (rpc_for env st msg))"
    by (simp only: str_contains_infix)
qed

theorem prompt_is_assembled_in_order_witness:
  "((\<lambda>_. [])(1 := [(''User'', ''hi'')]) :: history) 1 =
     ((\<lambda>_. [])(1 := [(''User'', ''hi'')], 2 := [(''User'', ''yo'')]) :: history) 1 \<and>
   build_prompt_with_history ''FAQ'' ((\<lambda>_. [])(1 := [(''User'', ''hi'')])) 1 ''Hello'' =
     build_prompt_with_history ''FAQ''
       ((\<lambda>_. [])(1 := [(''User'', ''hi'')], 2 := [(''User'', ''yo'')])) 1 ''Hello'' \<and>
   \<not> msg_out (example_message 42 ''Hello'') \<and>
   msg_text (example_message 42 ''Hello'') = Some ''Hello'' \<and>
   ''Hello'' \<noteq> [] \<and>
   msg_id (example_message 42 ''Hello'') \<notin> processed_ids (example_bot {} None) \<and>
   is_private (example_message 42 ''Hello'') \<and>
   backend_calls (events (snd (process_message
       (example_env (Inr []) (Inr (PDict [(''result'', PDict [(''content'', PStr ''Hi'')])])) None)
       (example_message 42 ''Hello'') (example_bot {} None)))) =
     [rpc_for
       (example_env (Inr []) (Inr (PDict [(''result'', PDict [(''content'', PStr ''Hi'')])])) None)
       (example_bot {} None) (example_message 42 ''Hello'')] \<and>
   str_contains ''Current message: Hello''
     (params_prompt (rpc_for
       (example_env (Inr []) (Inr (PDict [(''result'', PDict [(''content'', PStr ''Hi'')])])) None)
       (example_bot {} None) (example_message 42 ''Hello'')))"
proof -
  let ?env = "example_env (Inr [])
      (Inr (PDict [(''result'', PDict [(''content'', PStr ''Hi'')])])) None"
  let ?msg = "example_message 42 ''Hello''"
  let ?st = "example_bot {} None"
  let ?h = "(\<lambda>_. [])(1 := [(''User'', ''hi'')]) :: history"
  let ?h' = "(\<lambda>_. [])(1 := [(''User'', ''hi'')], 2 := [(''User'', ''yo'')]) :: history"
  have same: "?h 1 = ?h' 1"
    by simp
  have inbound: "\<not> msg_out ?msg" and has_text: "msg_text ?msg = Some ''Hello''"
    and nonempty: "''Hello'' \<noteq> []"
    and unseen: "msg_id ?msg \<notin> processed_ids ?st" and in_private: "is_private ?msg"
    by (simp_all add: example_message_def example_bot_def)
  have start: "backend_calls (events ?st) = []" "''Current message: '' @ ''Hello'' = ''Current message: Hello''"
    by (simp_all add: example_bot_def)
  from prompt_is_assembled_in_order [where h = ?h and h' = ?h' and u = 1 and knowledge = "''FAQ''"
      and current = "''Hello''" and msg = ?msg and t = "''Hello''" and st = ?st and env = ?env]
    same inbound has_text nonempty unseen in_private
  show ?thesis
    unfolding start append_Nil by blast
qed

lemma poll_cycle_completes:
  assumes "transient_only env"
  shows "fst (poll_cycle env st) = None"
proof (cases "get_messages env 20 (world st)")
  case (Pair r w)
  show ?thesis
  proof (cases r)
    case (Inl e)
    with Pair have "fst (get_messages env 20 (world st)) = Inl e"
      by simp
    with assms have "is_Exception e"
      unfolding transient_only_def by blast
    with Pair Inl show ?thesis
      by (simp add: poll_cycle_def loop_handler_def)
  next
    case (Inr messages)
    let ?st1 = "(emit (Call_get_messages 20) st)\<lparr>world := w\<rparr>"
    from for_each_message_completes [OF assms, of "rev messages" ?st1]
    obtain st2 where "for_each_message env (rev messages) ?st1 = (None, st2)"
      by (cases "for_each_message env (rev messages) ?st1") auto
    with Pair Inr show ?thesis
      by (simp add: poll_cycle_def)
  qed
qed

lemma polling_completes:
  assumes "transient_only env"
  shows "fst (polling n env st) = None"
proof (induction n arbitrary: st)
  case 0
  show ?case by simp
next
  case (Suc n)
  from poll_cycle_completes [OF assms, of st]
  obtain st1 where "poll_cycle env st = (None, st1)"
    by (cases "poll_cycle env st") auto
  with Suc [of st1] show ?case
    by simp
qed

text \<open>
  C8. An \<open>Exception\<close> that reaches the boundary of the loop is printed and followed by a
  sleep of 5 seconds, and the cycle ends normally. When the fetch of a cycle raises one,
  that is all the cycle does, and the loop goes on with the next cycle. As long as the
  collaborators raise nothing but \<open>Exception\<close>s, every cycle ends normally and the loop is
  still polling after any number of cycles.
\<close>

theorem loop_survives_transient_faults:
  "(is_Exception e \<longrightarrow>
      loop_handler e st = (None, st\<lparr>events := events st @ [Print_Loop_Error e, Sleep 5]\<rparr>)) \<and>
   (get_messages env 20 (world st) = (Inl e, w) \<and> is_Exception e \<longrightarrow>
      poll_cycle env st =
        (None, st\<lparr>events := events st @ [Call_get_messages 20, Print_Loop_Error e, Sleep 5],
                  world := w\<rparr>) \<and>
      polling (Suc n) env st =
        polling n env
          (st\<lparr>events := events st @ [Call_get_messages 20, Print_Loop_Error e, Sleep 5],
              world := w\<rparr>)) \<and>
   (transient_only env \<longrightarrow>
      fst (poll_cycle env st) = None \<and> fst (polling n env st) = None)"
proof (intro conjI impI)
  assume "is_Exception e"
  then show "loop_handler e st =
      (None, st\<lparr>events := events st @ [Print_Loop_Error e, Sleep 5]\<rparr>)"
    by (simp add: loop_handler_def emit_def)
next
  assume fault: "get_messages env 20 (world st) = (Inl e, w) \<and> is_Exception e"
  then show cycle: "poll_cycle env st =
      (None, st\<lparr>events := events st @ [Call_get_messages 20, Print_Loop_Error e, Sleep 5],
                world := w\<rparr>)"
    by (simp add: poll_cycle_def loop_handler_def emit_def)
  then show "polling (Suc n) env st =
      polling n env
        (st\<lparr>events := events st @ [Call_get_messages 20, Print_Loop_Error e, Sleep 5],
            world := w\<rparr>)"
    by simp
next
  assume "transient_only env"
  then show "fst (poll_cycle env st) = None" and "fst (polling n env st) = None"
    by (rule poll_cycle_completes, rule polling_completes)
qed

theorem loop_survives_transient_faults_witness:
  "is_Exception (Exception ''timeout'') \<and>
   get_messages (example_env (Inl (Exception ''timeout'')) (Inr PNone) None) 20
     (world (example_bot {} None)) = (Inl (Exception ''timeout''), 0) \<and>
   transient_only (example_env (Inl (Exception ''timeout'')) (Inr PNone) None) \<and>
   poll_cycle (example_env (Inl (Exception ''timeout'')) (Inr PNone) None) (example_bot {} None) =
     (None, (example_bot {} None)
        \<lparr>events := events (example_bot {} None) @
           [Call_get_messages 20, Print_Loop_Error (Exception ''timeout''), Sleep 5],
         world := 0\<rparr>) \<and>
   fst (polling 3 (example_env (Inl (Exception ''timeout'')) (Inr PNone) None)
          (example_bot {} None)) = None"
proof -
  let ?env = "example_env (Inl (Exception ''timeout'')) (Inr PNone) None"
  let ?st = "example_bot {} None"
  have caught: "is_Exception (Exception ''timeout'')"
    by simp
  have fault: "get_messages ?env 20 (world ?st) = (Inl (Exception ''timeout''), 0)"
    by (simp add: example_env_def example_bot_def)
  have transient: "transient_only ?env"
    by (rule example_env_transient) auto
  from loop_survives_transient_faults [where e = "Exception ''timeout''" and env = ?env
      and st = ?st and w = 0 and n = 3] caught fault transient
  show ?thesis
    by blast
qed

section \<open>Properties of the periodic cleanup\<close>

lemma compact_subset: "set xs = ids \<Longrightarrow> compact xs ids \<subseteq> ids"
  by (auto simp: compact_def last_n_def dest: in_set_dropD)

lemma compact_card:
  assumes "distinct xs" and "set xs = ids" and "1000 < card ids"
  shows "card (compact xs ids) = 1000"
proof -
  from assms have len: "1000 < length xs"
    by (simp add: distinct_card [symmetric])
  have "distinct (last_n 1000 xs)"
    using assms(1) by (simp add: last_n_def)
  then have "card (set (last_n 1000 xs)) = length (last_n 1000 xs)"
    by (rule distinct_card)
  also have "\<dots> = 1000"
    using len by (simp add: last_n_def)
  finally show ?thesis
    using assms(3) by (simp add: compact_def)
qed

lemma compact_unchanged: "\<not> 1000 < card ids \<Longrightarrow> compact xs ids = ids"
  by (simp add: compact_def)

text \<open>
  C5. One pass through the periodic cleanup, with the clock reading \<open>now\<close> and the list
  that Python makes of the set (its elements, each once, in some order). The set changes
  exactly when it has more than 1000 elements and more than 600 seconds have passed since
  the last check; so a change implies at least 600 seconds. The new set is always a subset
  of the old one, and when the set is compacted it is the set of the last 1000 elements of
  the list and has exactly 1000 elements. The time of the last check moves only when the
  600 seconds have passed.
\<close>

theorem compaction_bound:
  assumes "time_time env (world st) = (now, w1)"
    and "distinct (list_of_set env w1 (processed_ids st))"
    and "set (list_of_set env w1 (processed_ids st)) = processed_ids st"
  shows "(processed_ids (periodic_cleanup env st) \<noteq> processed_ids st \<longleftrightarrow>
            1000 < card (processed_ids st) \<and> 600 < now - last_check_time st) \<and>
         (processed_ids (periodic_cleanup env st) \<noteq> processed_ids st \<longrightarrow>
            600 \<le> now - last_check_time st) \<and>
         processed_ids (periodic_cleanup env st) \<subseteq> processed_ids st \<and>
         (1000 < card (processed_ids st) \<and> 600 < now - last_check_time st \<longrightarrow>
            processed_ids (periodic_cleanup env st) =
              set (last_n 1000 (list_of_set env w1 (processed_ids st))) \<and>
            card (processed_ids (periodic_cleanup env st)) = 1000) \<and>
         (\<not> 600 < now - last_check_time st \<longrightarrow>
            last_check_time (periodic_cleanup env st) = last_check_time st)"
proof -
  let ?ids = "processed_ids st"
  let ?xs = "list_of_set env w1 ?ids"
  have after: "processed_ids (periodic_cleanup env st) =
      (if 600 < now - last_check_time st then compact ?xs ?ids else ?ids)"
    using assms(1) by (simp add: periodic_cleanup_def Let_def split: prod.splits)
  have last_check: "\<not> 600 < now - last_check_time st \<Longrightarrow>
      last_check_time (periodic_cleanup env st) = last_check_time st"
    using assms(1) by (simp add: periodic_cleanup_def Let_def split: prod.splits)
  have subset: "compact ?xs ?ids \<subseteq> ?ids"
    using assms(3) by (rule compact_subset)
  show ?thesis
  proof (cases "1000 < card ?ids")
    case True
    with assms(2,3) have size: "card (compact ?xs ?ids) = 1000"
      by (rule compact_card)
    with True have "compact ?xs ?ids \<noteq> ?ids"
      by auto
    moreover from True have "compact ?xs ?ids = set (last_n 1000 ?xs)"
      by (simp add: compact_def)
    ultimately show ?thesis
      using after last_check subset size True by auto
  next
    case False
    then have "compact ?xs ?ids = ?ids"
      by (rule compact_unchanged)
    with after last_check False show ?thesis
      by auto
  qed
qed

theorem compaction_bound_witness:
  "time_time (example_env (Inr []) (Inr PNone) None)
     (world ((example_bot {0..1000} None)\<lparr>world := 601\<rparr>)) = (601, 602) \<and>
   distinct (list_of_set (example_env (Inr []) (Inr PNone) None) 602
     (processed_ids ((example_bot {0..1000} None)\<lparr>world := 601\<rparr>))) \<and>
   set (list_of_set (example_env (Inr []) (Inr PNone) None) 602
     (processed_ids ((example_bot {0..1000} None)\<lparr>world := 601\<rparr>))) =
     processed_ids ((example_bot {0..1000} None)\<lparr>world := 601\<rparr>) \<and>
   1000 < card (processed_ids ((example_bot {0..1000} None)\<lparr>world := 601\<rparr>)) \<and>
   600 < (601 :: real) - last_check_time ((example_bot {0..1000} None)\<lparr>world := 601\<rparr>) \<and>
   card (processed_ids (periodic_cleanup (example_env (Inr []) (Inr PNone) None)
     ((example_bot {0..1000} None)\<lparr>world := 601\<rparr>))) = 1000 \<and>
   processed_ids (periodic_cleanup (example_env (Inr []) (Inr PNone) None)
     ((example_bot {0..1000} None)\<lparr>world := 601\<rparr>)) \<subseteq>
     processed_ids ((example_bot {0..1000} None)\<lparr>world := 601\<rparr>) \<and>
   time_time (example_env (Inr []) (Inr PNone) None) (world (example_bot {0..1000} None)) = (0, 1) \<and>
   \<not> 600 < (0 :: real) - last_check_time (example_bot {0..1000} None) \<and>
   processed_ids (periodic_cleanup (example_env (Inr []) (Inr PNone) None)
     (example_bot {0..1000} None)) = processed_ids (example_bot {0..1000} None) \<and>
   last_check_time (periodic_cleanup (example_env (Inr []) (Inr PNone) None)
     (example_bot {0..1000} None)) = last_check_time (example_bot {0..1000} None)"
proof -
  let ?env = "example_env (Inr []) (Inr PNone) None"
  let ?st = "(example_bot {0..1000} None)\<lparr>world := 601\<rparr>"
  let ?early = "example_bot {0..1000} None"
  have clock: "time_time ?env (world ?st) = (601, 602)"
    by (simp add: example_env_def example_bot_def)
  have once: "distinct (list_of_set ?env 602 (processed_ids ?st))"
    and all: "set (list_of_set ?env 602 (processed_ids ?st)) = processed_ids ?st"
    by (simp_all add: example_env_def example_bot_def)
  have large: "1000 < card (processed_ids ?st)"
    and late: "600 < (601 :: real) - last_check_time ?st"
    by (simp_all add: example_bot_def)
  have clock': "time_time ?env (world ?early) = (0, 1)"
    by (simp add: example_env_def example_bot_def)
  have once': "distinct (list_of_set ?env 1 (processed_ids ?early))"
    and all': "set (list_of_set ?env 1 (processed_ids ?early)) = processed_ids ?early"
    by (simp_all add: example_env_def example_bot_def)
  have soon: "\<not> 600 < (0 :: real) - last_check_time ?early"
    by (simp add: example_bot_def)
  from compaction_bound [OF clock once all] compaction_bound [OF clock' once' all']
    clock once all large late clock' soon
  show ?thesis
    by blast
qed

end
